theory Spec2Isabelle
  imports Complex_Main "HOL-Library.AList" "HOL-Library.Sublist"
begin

section \<open>JavaScript values\<close>

text \<open>
  The gateway of \<^verbatim>\<open>parent.js\<close> receives JSON Schema documents and call arguments as
  JSON over HTTP and inspects them dynamically. A value is therefore a JSON value, plus
  \<^verbatim>\<open>undefined\<close> (what reading a missing property yields). Numbers are the finite
  numbers JSON can carry, taken as rationals; \<^verbatim>\<open>NaN\<close> and the infinities cannot arrive in
  JSON and are not modelled. An object is the list of its own enumerable properties in
  enumeration order; a property is read at its first entry in that list. Property names
  are taken not to collide with members of \<^verbatim>\<open>Object.prototype\<close>. The functions are
  given first as they run on a stack that never overflows; the schema translator is
  given a second time on a stack of bounded depth.
\<close>

datatype jsval =
    JUndefined
  | JNull
  | JBool bool
  | JNum rat
  | JStr string
  | JArr "jsval list"
  | JObj "(string \<times> jsval) list"

datatype error =
    TypeError
  | RangeError
  | ToolAlreadyRegistered string
  | ConnectionError string
  | DiscoveryError string
  | UnknownTool string
  | ValidationError
  | UpstreamError string

text \<open>Sequencing of computations that may throw: the first exception wins.\<close>

definition ebind :: "error + 'a \<Rightarrow> ('a \<Rightarrow> error + 'b) \<Rightarrow> error + 'b" where
  "ebind m f = (case m of Inl e \<Rightarrow> Inl e | Inr x \<Rightarrow> f x)"

fun emap :: "('a \<Rightarrow> error + 'b) \<Rightarrow> 'a list \<Rightarrow> error + 'b list" where
  "emap f [] = Inr []"
| "emap f (x # xs) = ebind (f x) (\<lambda>y. ebind (emap f xs) (\<lambda>ys. Inr (y # ys)))"

text \<open>\<^verbatim>\<open>!v\<close> is \<^verbatim>\<open>\<not> truthy v\<close>.\<close>

fun truthy :: "jsval \<Rightarrow> bool" where
  "truthy JUndefined = False"
| "truthy JNull = False"
| "truthy (JBool b) = b"
| "truthy (JNum r) = (r \<noteq> 0)"
| "truthy (JStr s) = (s \<noteq> [])"
| "truthy (JArr xs) = True"
| "truthy (JObj kvs) = True"

fun typeof :: "jsval \<Rightarrow> string" where
  "typeof JUndefined = ''undefined''"
| "typeof JNull = ''object''"
| "typeof (JBool b) = ''boolean''"
| "typeof (JNum r) = ''number''"
| "typeof (JStr s) = ''string''"
| "typeof (JArr xs) = ''object''"
| "typeof (JObj kvs) = ''object''"

fun isArray :: "jsval \<Rightarrow> bool" where
  "isArray (JArr xs) = True"
| "isArray v = False"

fun elems :: "jsval \<Rightarrow> jsval list" where
  "elems (JArr xs) = xs"
| "elems v = []"

text \<open>
  \<^verbatim>\<open>v.k\<close> for the property names this program reads (\<^verbatim>\<open>type\<close>, \<^verbatim>\<open>enum\<close>,
  \<^verbatim>\<open>items\<close>, \<^verbatim>\<open>properties\<close>, \<^verbatim>\<open>required\<close>, \<^verbatim>\<open>nullable\<close>): none is an index or
  \<^verbatim>\<open>length\<close>, so arrays and primitives yield \<^verbatim>\<open>undefined\<close>. Reading a property of
  \<^verbatim>\<open>null\<close> or \<^verbatim>\<open>undefined\<close> throws a TypeError.
\<close>

definition lookup :: "(string \<times> jsval) list \<Rightarrow> string \<Rightarrow> jsval" where
  "lookup kvs k = (case map_of kvs k of None \<Rightarrow> JUndefined | Some v \<Rightarrow> v)"

fun get_prop :: "jsval \<Rightarrow> string \<Rightarrow> error + jsval" where
  "get_prop JUndefined k = Inl TypeError"
| "get_prop JNull k = Inl TypeError"
| "get_prop (JObj kvs) k = Inr (lookup kvs k)"
| "get_prop v k = Inr JUndefined"

text \<open>\<^verbatim>\<open>xs[i]\<close> on an array: \<^verbatim>\<open>undefined\<close> out of range.\<close>

definition index :: "jsval list \<Rightarrow> nat \<Rightarrow> jsval" where
  "index xs i = (if i < length xs then xs ! i else JUndefined)"

text \<open>Decimal numerals, the property names of array elements and string characters.\<close>

fun digits :: "nat \<Rightarrow> string" where
  "digits n = (if n < 10 then [char_of (48 + n)]
               else digits (n div 10) @ [char_of (48 + n mod 10)])"

definition indexed :: "'a list \<Rightarrow> (string \<times> 'a) list" where
  "indexed xs = zip (map digits [0 ..< length xs]) xs"

text \<open>The own enumerable string-keyed properties of a value.\<close>

fun own_entries :: "jsval \<Rightarrow> (string \<times> jsval) list" where
  "own_entries (JObj kvs) = kvs"
| "own_entries (JArr xs) = indexed xs"
| "own_entries (JStr s) = indexed (map (\<lambda>c. JStr [c]) s)"
| "own_entries v = []"

text \<open>\<^verbatim>\<open>Object.entries(v)\<close> throws on \<^verbatim>\<open>null\<close> and \<^verbatim>\<open>undefined\<close>.\<close>

fun object_entries :: "jsval \<Rightarrow> error + (string \<times> jsval) list" where
  "object_entries JUndefined = Inl TypeError"
| "object_entries JNull = Inl TypeError"
| "object_entries v = Inr (own_entries v)"

text \<open>\<^verbatim>\<open>{ ...v, k: x }\<close>: a fresh object with the own properties of \<^verbatim>\<open>v\<close>, \<^verbatim>\<open>k\<close> set to \<^verbatim>\<open>x\<close>.\<close>

definition spread_with :: "jsval \<Rightarrow> string \<Rightarrow> jsval \<Rightarrow> jsval" where
  "spread_with v k x = JObj (AList.update k x (own_entries v))"

text \<open>
  \<^verbatim>\<open>v.includes(x)\<close>: \<^verbatim>\<open>Array.prototype.includes\<close> on an array,
  \<^verbatim>\<open>String.prototype.includes\<close> (substring search) on a string; on any other value
  \<^verbatim>\<open>includes\<close> is not a function and the call throws. The program only ever passes a
  string as \<^verbatim>\<open>x\<close>.
\<close>

fun js_includes :: "jsval \<Rightarrow> jsval \<Rightarrow> error + bool" where
  "js_includes (JArr xs) x = Inr (x \<in> set xs)"
| "js_includes (JStr s) (JStr t) = Inr (sublist t s)"
| "js_includes v x = Inl TypeError"

section \<open>Zod schemas\<close>

text \<open>
  The validators \<^verbatim>\<open>parent.js\<close> builds with the zod library, as the tree of constructor
  calls: \<^verbatim>\<open>z.any()\<close>, \<^verbatim>\<open>z.string()\<close>, \<^verbatim>\<open>z.enum(values)\<close>, \<^verbatim>\<open>z.number()\<close>,
  \<^verbatim>\<open>z.number().int()\<close>, \<^verbatim>\<open>z.boolean()\<close>, \<^verbatim>\<open>z.array(el)\<close>, \<^verbatim>\<open>z.object(shape)\<close>,
  \<^verbatim>\<open>z.record(val)\<close>, \<^verbatim>\<open>z.null()\<close>, \<^verbatim>\<open>s.nullable()\<close>, \<^verbatim>\<open>s.optional()\<close>.
\<close>

datatype zod =
    ZAny
  | ZString
  | ZEnum "jsval list"
  | ZNumber
  | ZNumberInt
  | ZBoolean
  | ZArray zod
  | ZObject "(string \<times> zod) list"
  | ZRecord zod
  | ZNull
  | ZNullable zod
  | ZOptional zod

section \<open>The schema translator\<close>

lemma ebind_cong [fundef_cong]:
  "m = m' \<Longrightarrow> (\<And>x. m' = Inr x \<Longrightarrow> f x = f' x) \<Longrightarrow> ebind m f = ebind m' f'"
  by (simp add: ebind_def split: sum.splits)

lemma emap_cong [fundef_cong]:
  "xs = ys \<Longrightarrow> (\<And>x. x \<in> set ys \<Longrightarrow> f x = g x) \<Longrightarrow> emap f xs = emap g ys"
proof (induction ys arbitrary: xs)
  case Nil
  then show ?case by simp
next
  case (Cons y ys)
  then show ?case by (simp cong: ebind_cong)
qed

text \<open>Every value read out of a schema is smaller than the schema: the translator's recursion is well founded.\<close>

lemma size_map_of: "map_of kvs k = Some v \<Longrightarrow> size v < size (JObj kvs)"
  by (induction kvs) (auto split: if_splits)

lemma size_update:
  "map_of kvs k = Some a \<Longrightarrow> size b < size a \<Longrightarrow> size (JObj (AList.update k b kvs)) < size (JObj kvs)"
  by (induction kvs) (auto split: if_splits)

lemma get_prop_defined:
  "get_prop ps k = Inr v \<Longrightarrow> v \<noteq> JUndefined \<Longrightarrow> \<exists>kvs. ps = JObj kvs \<and> map_of kvs k = Some v"
  by (cases ps) (auto simp add: lookup_def split: option.splits)

lemma size_get_prop: "get_prop ps k = Inr v \<Longrightarrow> truthy v \<Longrightarrow> size v < size ps"
  using get_prop_defined [of ps k v] size_map_of [of _ k v] by fastforce

lemma size_elem: "x \<in> set xs \<Longrightarrow> size x < size (JArr xs)"
  by (induction xs) auto

lemma size_index: "size (index xs i) < size (JArr xs)"
  using size_elem [of "xs ! i" xs] by (simp add: index_def)

lemma size_index_filter: "size (index (filter P xs) i) < size (JArr xs)"
proof (cases "i < length (filter P xs)")
  case True
  then have "filter P xs ! i \<in> set xs" using nth_mem [of i "filter P xs"] by auto
  with True show ?thesis using size_elem by (simp add: index_def)
next
  case False
  then show ?thesis by (simp add: index_def)
qed

lemma size_spread_type:
  assumes "get_prop ps k = Inr (JArr ts)" and "size t < size (JArr ts)"
  shows "size (spread_with ps k t) < size ps"
proof -
  from assms(1) obtain kvs where "ps = JObj kvs" "map_of kvs k = Some (JArr ts)"
    using get_prop_defined by blast
  with assms(2) show ?thesis
    using size_update [of kvs k "JArr ts" t] by (simp add: spread_with_def)
qed

lemma set_indexed: "kv \<in> set (indexed xs) \<Longrightarrow> snd kv \<in> set xs"
  unfolding indexed_def by (cases kv) (auto dest: set_zip_rightD)

lemma size_own_entries: "kv \<in> set (own_entries v) \<Longrightarrow> size (snd kv) \<le> size v"
proof (cases v)
  case (JArr xs)
  assume "kv \<in> set (own_entries v)"
  with JArr have "snd kv \<in> set xs" by (simp add: set_indexed)
  then show ?thesis using size_elem JArr by fastforce
next
  case (JStr s)
  assume "kv \<in> set (own_entries v)"
  with JStr have "snd kv \<in> set (map (\<lambda>c. JStr [c]) s)"
    using set_indexed [of kv "map (\<lambda>c. JStr [c]) s"] by simp
  then show ?thesis by auto
next
  case (JObj kvs)
  assume "kv \<in> set (own_entries v)"
  with JObj have "kv \<in> set kvs" by simp
  then have "size (snd kv) \<le> size_list (size_prod (\<lambda>x. 0) size) kvs"
    by (induction kvs) auto
  with JObj show ?thesis by simp
qed simp_all

lemma object_entries_own: "object_entries v = Inr es \<Longrightarrow> es = own_entries v"
  by (cases v) auto

text \<open>\<^verbatim>\<open>jsonSchemaPropertyToZod\<close>, lines 12 to 81 of \<^verbatim>\<open>parent.js\<close>.\<close>

function jsonSchemaPropertyToZod :: "jsval \<Rightarrow> error + zod" where
  "jsonSchemaPropertyToZod propertySchema =
     (if \<not> truthy propertySchema \<or> typeof propertySchema \<noteq> ''object'' then Inr ZAny
      else
        ebind (get_prop propertySchema ''type'') (\<lambda>type.
        if isArray type then
          ebind (js_includes type (JStr ''null'')) (\<lambda>hasNull.
          let nonNullTypes = filter (\<lambda>t. t \<noteq> JStr ''null'') (elems type) in
          if hasNull \<and> length nonNullTypes = 1 then
            ebind (jsonSchemaPropertyToZod
                     (spread_with propertySchema ''type'' (index nonNullTypes 0)))
              (\<lambda>z. Inr (ZNullable z))
          else
            jsonSchemaPropertyToZod (spread_with propertySchema ''type'' (index (elems type) 0)))
        else
          ebind
            (if type = JStr ''string'' then
               ebind (get_prop propertySchema ''enum'') (\<lambda>enum.
               if truthy enum \<and> isArray enum then Inr (ZEnum (elems enum)) else Inr ZString)
             else if type = JStr ''number'' \<or> type = JStr ''integer'' then
               (if type = JStr ''integer'' then Inr ZNumberInt else Inr ZNumber)
             else if type = JStr ''boolean'' then Inr ZBoolean
             else if type = JStr ''array'' then
               ebind (get_prop propertySchema ''items'') (\<lambda>items.
               if truthy items then
                 ebind (jsonSchemaPropertyToZod items) (\<lambda>el. Inr (ZArray el))
               else Inr (ZArray ZAny))
             else if type = JStr ''object'' then
               ebind (get_prop propertySchema ''properties'') (\<lambda>properties.
               if truthy properties then
                 ebind (object_entries properties) (\<lambda>entries.
                 ebind (emap (\<lambda>kv. ebind (jsonSchemaPropertyToZod (snd kv))
                                      (\<lambda>z. Inr (fst kv, z))) entries)
                   (\<lambda>shape. Inr (ZObject shape)))
               else Inr (ZRecord ZAny))
             else if type = JStr ''null'' then Inr ZNull
             else Inr ZAny)
            (\<lambda>zodSchema.
            ebind (get_prop propertySchema ''type'') (\<lambda>type'.
            ebind (get_prop propertySchema ''nullable'') (\<lambda>nullable.
            ebind (if nullable = JBool True then Inr True
                   else if isArray type' then js_includes type' (JStr ''null'')
                   else Inr False) (\<lambda>wrap.
            if type' \<noteq> JStr ''null'' \<and> wrap then Inr (ZNullable zodSchema)
            else Inr zodSchema))))))"
  by pat_completeness auto

termination jsonSchemaPropertyToZod
proof (relation "measure size", goal_cases)
  case 1
  show ?case by simp
next
  case (2 ps ty hasNull nn)
  then obtain ts where "ty = JArr ts" by (cases ty) auto
  with 2 have "get_prop ps ''type'' = Inr (JArr ts)"
    and "nn = filter (\<lambda>t. t \<noteq> JStr ''null'') ts" by simp_all
  then show ?case using size_spread_type [OF _ size_index_filter] by simp
next
  case (3 ps ty hasNull nn)
  then obtain ts where "ty = JArr ts" by (cases ty) auto
  with 3 have "get_prop ps ''type'' = Inr (JArr ts)" by simp
  then show ?case using \<open>ty = JArr ts\<close> size_spread_type [OF _ size_index] by simp
next
  case (4 ps ty items)
  then show ?case using size_get_prop [of ps "''items''" items] by simp
next
  case (5 ps ty props es kv)
  from 5 have "object_entries props = Inr es" by simp
  then have "es = own_entries props" by (rule object_entries_own)
  with 5 have "kv \<in> set (own_entries props)" by simp
  then have "size (snd kv) \<le> size props" by (rule size_own_entries)
  moreover from 5 have "get_prop ps ''properties'' = Inr props" and "truthy props" by simp_all
  then have "size props < size ps" by (rule size_get_prop)
  ultimately show ?case by simp
qed

declare jsonSchemaPropertyToZod.simps [simp del]

text \<open>
  The same function on a call stack that holds only so many nested activations of it:
  \<open>frames\<close> is the number of activations still available, and a call that finds none
  left throws a RangeError (maximum call stack size exceeded). Each recursive call
  runs with one activation fewer.
\<close>

fun jsonSchemaPropertyToZod_within :: "nat \<Rightarrow> jsval \<Rightarrow> error + zod" where
  "jsonSchemaPropertyToZod_within 0 propertySchema = Inl RangeError"
| "jsonSchemaPropertyToZod_within (Suc frames) propertySchema =
     (if \<not> truthy propertySchema \<or> typeof propertySchema \<noteq> ''object'' then Inr ZAny
      else
        ebind (get_prop propertySchema ''type'') (\<lambda>type.
        if isArray type then
          ebind (js_includes type (JStr ''null'')) (\<lambda>hasNull.
          let nonNullTypes = filter (\<lambda>t. t \<noteq> JStr ''null'') (elems type) in
          if hasNull \<and> length nonNullTypes = 1 then
            ebind (jsonSchemaPropertyToZod_within frames
                     (spread_with propertySchema ''type'' (index nonNullTypes 0)))
              (\<lambda>z. Inr (ZNullable z))
          else
            jsonSchemaPropertyToZod_within frames (spread_with propertySchema ''type'' (index (elems type) 0)))
        else
          ebind
            (if type = JStr ''string'' then
               ebind (get_prop propertySchema ''enum'') (\<lambda>enum.
               if truthy enum \<and> isArray enum then Inr (ZEnum (elems enum)) else Inr ZString)
             else if type = JStr ''number'' \<or> type = JStr ''integer'' then
               (if type = JStr ''integer'' then Inr ZNumberInt else Inr ZNumber)
             else if type = JStr ''boolean'' then Inr ZBoolean
             else if type = JStr ''array'' then
               ebind (get_prop propertySchema ''items'') (\<lambda>items.
               if truthy items then
                 ebind (jsonSchemaPropertyToZod_within frames items) (\<lambda>el. Inr (ZArray el))
               else Inr (ZArray ZAny))
             else if type = JStr ''object'' then
               ebind (get_prop propertySchema ''properties'') (\<lambda>properties.
               if truthy properties then
                 ebind (object_entries properties) (\<lambda>entries.
                 ebind (emap (\<lambda>kv. ebind (jsonSchemaPropertyToZod_within frames (snd kv))
                                      (\<lambda>z. Inr (fst kv, z))) entries)
                   (\<lambda>shape. Inr (ZObject shape)))
               else Inr (ZRecord ZAny))
             else if type = JStr ''null'' then Inr ZNull
             else Inr ZAny)
            (\<lambda>zodSchema.
            ebind (get_prop propertySchema ''type'') (\<lambda>type'.
            ebind (get_prop propertySchema ''nullable'') (\<lambda>nullable.
            ebind (if nullable = JBool True then Inr True
                   else if isArray type' then js_includes type' (JStr ''null'')
                   else Inr False) (\<lambda>wrap.
            if type' \<noteq> JStr ''null'' \<and> wrap then Inr (ZNullable zodSchema)
            else Inr zodSchema))))))"


text \<open>
  \<^verbatim>\<open>jsonSchemaToZodSchema\<close>, lines 86 to 113 of \<^verbatim>\<open>parent.js\<close>. It returns either a
  zod schema (\<^verbatim>\<open>z.record(z.any())\<close>) or a raw shape, the plain object \<^verbatim>\<open>shape\<close>.
\<close>

datatype input_schema = ZodType zod | RawShape "(string \<times> zod) list"

definition jsonSchemaToZodSchema :: "jsval \<Rightarrow> error + input_schema" where
  "jsonSchemaToZodSchema jsonSchema =
     (if \<not> truthy jsonSchema then Inr (ZodType (ZRecord ZAny))
      else
        ebind (get_prop jsonSchema ''type'') (\<lambda>ty.
        if ty \<noteq> JStr ''object'' then Inr (ZodType (ZRecord ZAny))
        else
          ebind (get_prop jsonSchema ''properties'') (\<lambda>p.
          let properties = (if truthy p then p else JObj []) in
          ebind (get_prop jsonSchema ''required'') (\<lambda>r.
          let required = (if truthy r then r else JArr []) in
          ebind (object_entries properties) (\<lambda>entries.
          ebind (emap (\<lambda>kv.
                   ebind (jsonSchemaPropertyToZod (snd kv)) (\<lambda>zodProperty.
                   ebind (js_includes required (JStr (fst kv))) (\<lambda>listed.
                   Inr (fst kv, if \<not> listed then ZOptional zodProperty else zodProperty))))
                 entries) (\<lambda>shape.
          if length shape = 0 then Inr (ZodType (ZRecord ZAny))
          else Inr (RawShape shape)))))))"

text \<open>
  The entry point on a bounded call stack: it takes one activation itself and leaves the
  rest to the translation of the properties.
\<close>

fun jsonSchemaToZodSchema_within :: "nat \<Rightarrow> jsval \<Rightarrow> error + input_schema" where
  "jsonSchemaToZodSchema_within 0 jsonSchema = Inl RangeError"
| "jsonSchemaToZodSchema_within (Suc frames) jsonSchema =
     (if \<not> truthy jsonSchema then Inr (ZodType (ZRecord ZAny))
      else
        ebind (get_prop jsonSchema ''type'') (\<lambda>ty.
        if ty \<noteq> JStr ''object'' then Inr (ZodType (ZRecord ZAny))
        else
          ebind (get_prop jsonSchema ''properties'') (\<lambda>p.
          let properties = (if truthy p then p else JObj []) in
          ebind (get_prop jsonSchema ''required'') (\<lambda>r.
          let required = (if truthy r then r else JArr []) in
          ebind (object_entries properties) (\<lambda>entries.
          ebind (emap (\<lambda>kv.
                   ebind (jsonSchemaPropertyToZod_within frames (snd kv)) (\<lambda>zodProperty.
                   ebind (js_includes required (JStr (fst kv))) (\<lambda>listed.
                   Inr (fst kv, if \<not> listed then ZOptional zodProperty else zodProperty))))
                 entries) (\<lambda>shape.
          if length shape = 0 then Inr (ZodType (ZRecord ZAny))
          else Inr (RawShape shape)))))))"

section \<open>What a validator accepts\<close>

text \<open>
  Parsing with a zod schema, \<^verbatim>\<open>schema.safeParse(v)\<close>: \<open>None\<close> is a validation failure,
  \<open>Some w\<close> success with the parsed value \<open>w\<close>. The behaviour is that of zod 3, whose
  one-argument \<^verbatim>\<open>z.record\<close> the source calls: \<^verbatim>\<open>z.any()\<close> accepts every value,
  \<^verbatim>\<open>undefined\<close> included; \<^verbatim>\<open>z.enum\<close> accepts a string that is among its values;
  \<^verbatim>\<open>.int()\<close> is \<^verbatim>\<open>Number.isInteger\<close>; \<^verbatim>\<open>z.object\<close> wants a plain object, parses
  each key of its shape against the property of that name (\<^verbatim>\<open>undefined\<close> when missing),
  drops the keys it does not know, and keeps a key whose parsed value is defined or
  that the input has; \<^verbatim>\<open>z.record\<close> wants a plain object and parses every value.
\<close>

fun zparse :: "zod \<Rightarrow> jsval \<Rightarrow> jsval option" where
  "zparse ZAny v = Some v"
| "zparse ZString v = (case v of JStr s \<Rightarrow> Some v | _ \<Rightarrow> None)"
| "zparse (ZEnum vals) v =
     (case v of JStr s \<Rightarrow> if v \<in> set vals then Some v else None | _ \<Rightarrow> None)"
| "zparse ZNumber v = (case v of JNum r \<Rightarrow> Some v | _ \<Rightarrow> None)"
| "zparse ZNumberInt v =
     (case v of JNum r \<Rightarrow> if of_int \<lfloor>r\<rfloor> = r then Some v else None | _ \<Rightarrow> None)"
| "zparse ZBoolean v = (case v of JBool b \<Rightarrow> Some v | _ \<Rightarrow> None)"
| "zparse (ZArray el) v =
     (case v of JArr xs \<Rightarrow> map_option JArr (those (map (zparse el) xs)) | _ \<Rightarrow> None)"
| "zparse (ZObject shape) v =
     (case v of
        JObj kvs \<Rightarrow>
          map_option
            (\<lambda>rs. JObj (filter (\<lambda>kr. snd kr \<noteq> JUndefined \<or> fst kr \<in> fst ` set kvs)
                           (zip (map fst shape) rs)))
            (those (map (\<lambda>kz. zparse (snd kz) (lookup kvs (fst kz))) shape))
      | _ \<Rightarrow> None)"
| "zparse (ZRecord val) v =
     (case v of
        JObj kvs \<Rightarrow>
          map_option (\<lambda>rs. JObj (zip (map fst kvs) rs))
            (those (map (\<lambda>kx. zparse val (snd kx)) kvs))
      | _ \<Rightarrow> None)"
| "zparse ZNull v = (if v = JNull then Some JNull else None)"
| "zparse (ZNullable z) v = (if v = JNull then Some JNull else zparse z v)"
| "zparse (ZOptional z) v = (if v = JUndefined then Some JUndefined else zparse z v)"

definition accepts :: "zod \<Rightarrow> jsval \<Rightarrow> bool" where
  "accepts z v = (zparse z v \<noteq> None)"

section \<open>Upstreams, the registry and the proxy handler\<close>

text \<open>
  What the upstream services do is not the gateway's code: it is a parameter. Connecting a
  client to an upstream either throws or succeeds, \<^verbatim>\<open>client.listTools()\<close> throws or
  yields the advertised tools, \<^verbatim>\<open>client.callTool(...)\<close> throws or yields a result payload.
\<close>

record child_config =
  cfg_id :: string
  cfg_url :: string

record client =
  client_name :: string
  client_url :: string

record tool =
  tool_name :: string
  tool_description :: "string option"
  tool_inputSchema :: jsval

record upstreams =
  connect :: "client \<Rightarrow> error option"
  listTools :: "client \<Rightarrow> error + tool list"
  callTool :: "client \<Rightarrow> string \<Rightarrow> jsval \<Rightarrow> error + jsval"

text \<open>\<^verbatim>\<open>connectChildHttp\<close>, lines 131 to 142 of \<^verbatim>\<open>parent.js\<close>.\<close>

definition connectChildHttp :: "upstreams \<Rightarrow> child_config \<Rightarrow> error + client" where
  "connectChildHttp env cfg =
     (let client = \<lparr>client_name = cfg_id cfg, client_url = cfg_url cfg\<rparr> in
      case connect env client of Some e \<Rightarrow> Inl e | None \<Rightarrow> Inr client)"

text \<open>
  A registered tool of the \<^verbatim>\<open>McpServer\<close>: its description, its input schema and its
  callback. The callback of \<^verbatim>\<open>parent.js\<close> (lines 162 to 168) is a closure over the
  \<^verbatim>\<open>client\<close> and the \<^verbatim>\<open>tool\<close> of the loop iteration that made it; it is kept as these
  two captured values. The server's tools are listed in registration order.
\<close>

record registered_tool =
  description :: string
  inputSchema :: zod
  handler_client :: client
  handler_tool :: string

type_synonym server = "(string \<times> registered_tool) list"

text \<open>
  \<^verbatim>\<open>getZodSchemaObject\<close> of the MCP SDK, applied by \<^verbatim>\<open>registerTool\<close> to the
  \<^verbatim>\<open>inputSchema\<close> it is given: a raw shape is wrapped as \<^verbatim>\<open>z.object(shape)\<close>, a zod
  schema is kept as it is.
\<close>

fun getZodSchemaObject :: "input_schema \<Rightarrow> zod" where
  "getZodSchemaObject (ZodType z) = z"
| "getZodSchemaObject (RawShape shape) = ZObject shape"

text \<open>
  \<^verbatim>\<open>McpServer.registerTool\<close> of the MCP SDK. It is library code, not code of the
  gateway; it starts with the guard
  \<^verbatim>\<open>if (this._registeredTools[name]) throw new Error(`Tool ${name} is already registered`)\<close>
  and otherwise records the tool under its name.
\<close>

definition registerTool ::
  "server \<Rightarrow> string \<Rightarrow> string \<Rightarrow> input_schema \<Rightarrow> client \<Rightarrow> string \<Rightarrow> error + server" where
  "registerTool server name desc schema cl target =
     (if map_of server name \<noteq> None then Inl (ToolAlreadyRegistered name)
      else Inr (server @ [(name, \<lparr>description = desc, inputSchema = getZodSchemaObject schema,
                                    handler_client = cl, handler_tool = target\<rparr>)]))"

text \<open>The inner loop of \<^verbatim>\<open>main\<close>, lines 155 to 169: one registration per advertised tool.\<close>

fun register_tools :: "client \<Rightarrow> server \<Rightarrow> tool list \<Rightarrow> error + server" where
  "register_tools cl server [] = Inr server"
| "register_tools cl server (t # tools) =
     ebind (jsonSchemaToZodSchema (tool_inputSchema t)) (\<lambda>zodSchema.
     ebind (registerTool server (tool_name t)
              (case tool_description t of None \<Rightarrow> [] | Some d \<Rightarrow> d)
              zodSchema cl (tool_name t)) (\<lambda>server'.
     register_tools cl server' tools))"

text \<open>
  The outer loop of \<^verbatim>\<open>main\<close>, lines 150 to 170, over the configured upstreams in their
  order: connect, list the tools, register them. Every \<^verbatim>\<open>await\<close> is sequential, and an
  exception leaves the loop and \<^verbatim>\<open>main\<close>.
\<close>

fun build :: "upstreams \<Rightarrow> server \<Rightarrow> child_config list \<Rightarrow> error + server" where
  "build env server [] = Inr server"
| "build env server (cfg # cfgs) =
     ebind (connectChildHttp env cfg) (\<lambda>cl.
     ebind (listTools env cl) (\<lambda>tools.
     ebind (register_tools cl server tools) (\<lambda>server'.
     build env server' cfgs)))"

text \<open>
  \<^verbatim>\<open>main\<close>, lines 144 to 211: a fresh server, the loop, and only then
  \<^verbatim>\<open>app.listen\<close>. \<open>Inr server\<close> is the gateway serving the tools of \<open>server\<close>;
  \<open>Inl e\<close> is \<^verbatim>\<open>await main()\<close> rejecting with \<open>e\<close> before the gateway listens.
\<close>

definition main :: "upstreams \<Rightarrow> child_config list \<Rightarrow> error + server" where
  "main env childrenConfig = build env [] childrenConfig"

text \<open>The configured upstreams, lines 119 to 128.\<close>

definition childrenConfig :: "child_config list" where
  "childrenConfig =
     [\<lparr>cfg_id = ''mcp-child-a-http'', cfg_url = ''http://127.0.0.1:3031/mcp''\<rparr>,
      \<lparr>cfg_id = ''mcp-child-b-http'', cfg_url = ''http://127.0.0.1:3032/mcp''\<rparr>]"

text \<open>\<^verbatim>\<open>a ?? b\<close>\<close>

definition nullish_coalesce :: "jsval \<Rightarrow> jsval \<Rightarrow> jsval" where
  "nullish_coalesce a b = (if a = JUndefined \<or> a = JNull then b else a)"

text \<open>The callback registered for each tool, lines 162 to 168.\<close>

definition proxy_handler :: "upstreams \<Rightarrow> client \<Rightarrow> string \<Rightarrow> jsval \<Rightarrow> error + jsval" where
  "proxy_handler env cl name args = callTool env cl name (nullish_coalesce args (JObj []))"

text \<open>
  Modelled from the spec: the dispatcher (section 4.4), which in the running gateway is the
  \<^verbatim>\<open>tools/call\<close> request handler of the MCP SDK's \<^verbatim>\<open>McpServer\<close> and is not among the
  repository's sources. It looks the entry up, validates the raw arguments with the
  entry's validator, and calls the entry's callback with the parsed arguments; the
  callback's result is the result of the call.
\<close>

definition dispatch :: "upstreams \<Rightarrow> server \<Rightarrow> string \<Rightarrow> jsval \<Rightarrow> error + jsval" where
  "dispatch env server toolName rawArguments =
     (case map_of server toolName of
        None \<Rightarrow> Inl (UnknownTool toolName)
      | Some entry \<Rightarrow>
          (case zparse (inputSchema entry) rawArguments of
             None \<Rightarrow> Inl ValidationError
           | Some coerced \<Rightarrow>
               proxy_handler env (handler_client entry) (handler_tool entry) coerced))"

section \<open>Predicates and concrete inputs used in the statements\<close>

text \<open>
  The data model gives \<^verbatim>\<open>required\<close> as a set of names: the property is absent (or
  otherwise falsy) or an array.
\<close>

definition required_is_list :: "jsval \<Rightarrow> bool" where
  "required_is_list s =
     (case get_prop s ''required'' of Inl e \<Rightarrow> True | Inr r \<Rightarrow> \<not> truthy r \<or> isArray r)"

text \<open>
  An input schema with a required string, an optional array of nullable strings and an
  optional nested object.
\<close>

definition example_schema :: jsval where
  "example_schema =
     JObj [(''type'', JStr ''object''),
           (''properties'',
              JObj [(''name'', JObj [(''type'', JStr ''string'')]),
                    (''tags'', JObj [(''type'', JStr ''array''),
                                     (''items'', JObj [(''type'', JArr [JStr ''string'', JStr ''null''])])]),
                    (''opts'', JObj [(''type'', JStr ''object''),
                                     (''properties'', JObj [(''verbose'', JObj [(''type'', JStr ''boolean'')])])])]),
           (''required'', JArr [JStr ''name''])]"

text \<open>String schemas with an enum list, with and without \<^verbatim>\<open>nullable\<close>.\<close>

definition nullable_enum_schema :: jsval where
  "nullable_enum_schema =
     JObj [(''type'', JStr ''string''), (''enum'', JArr [JStr ''x'', JStr ''y'']),
           (''nullable'', JBool True)]"

definition enum_schema :: jsval where
  "enum_schema = JObj [(''type'', JStr ''string''), (''enum'', JArr [JStr ''x'', JStr ''y''])]"

text \<open>
  A kind that is not \<^verbatim>\<open>string\<close>: a single kind other than \<^verbatim>\<open>string\<close>, or a list of
  single kinds none of which is \<^verbatim>\<open>string\<close>.
\<close>

definition no_string_kind :: "jsval \<Rightarrow> bool" where
  "no_string_kind ty =
     (if isArray ty then \<forall>t\<in>set (elems ty). \<not> isArray t \<and> t \<noteq> JStr ''string''
      else ty \<noteq> JStr ''string'')"

text \<open>A number schema with an enum list.\<close>

definition number_enum_schema :: jsval where
  "number_enum_schema = JObj [(''type'', JStr ''number''), (''enum'', JArr [JNum 1, JNum 2])]"

text \<open>Schemas whose kind is a list: null with one other kind, and a true union.\<close>

definition nullable_string_union :: jsval where
  "nullable_string_union = JObj [(''type'', JArr [JStr ''string'', JStr ''null''])]"

definition string_number_union :: jsval where
  "string_number_union = JObj [(''type'', JArr [JStr ''string'', JStr ''number'', JStr ''null''])]"

text \<open>A string schema with and without \<^verbatim>\<open>nullable: true\<close>.\<close>

definition nullable_string_schema :: jsval where
  "nullable_string_schema = JObj [(''type'', JStr ''string''), (''nullable'', JBool True)]"

definition plain_string_schema :: jsval where
  "plain_string_schema = JObj [(''type'', JStr ''string'')]"

text \<open>
  A required object \<^verbatim>\<open>opts\<close> whose only property \<^verbatim>\<open>verbose\<close> is not required; the
  example of section 8 of the specification (\<^verbatim>\<open>a\<close> required, \<^verbatim>\<open>b\<close> optional); and a
  required property with no declared kind.
\<close>

definition nested_optional_schema :: jsval where
  "nested_optional_schema =
     JObj [(''type'', JStr ''object''),
           (''properties'',
              JObj [(''opts'', JObj [(''type'', JStr ''object''),
                                     (''properties'', JObj [(''verbose'', JObj [(''type'', JStr ''boolean'')])]),
                                     (''required'', JArr [])])]),
           (''required'', JArr [JStr ''opts''])]"

definition required_example_schema :: jsval where
  "required_example_schema =
     JObj [(''type'', JStr ''object''),
           (''properties'',
              JObj [(''a'', JObj [(''type'', JStr ''number'')]),
                    (''b'', JObj [(''type'', JStr ''string'')])]),
           (''required'', JArr [JStr ''a''])]"

definition untyped_required_schema :: jsval where
  "untyped_required_schema =
     JObj [(''type'', JStr ''object''),
           (''properties'', JObj [(''a'', JObj [])]),
           (''required'', JArr [JStr ''a''])]"

text \<open>Upstream A answers; upstream B refuses the connection.\<close>

definition unreachable_b :: upstreams where
  "unreachable_b =
     \<lparr>connect = (\<lambda>cl. if client_name cl = ''mcp-child-b-http''
                        then Some (ConnectionError ''ECONNREFUSED'') else None),
      listTools = (\<lambda>cl. Inr [\<lparr>tool_name = ''joke'', tool_description = Some ''Get a Random Joke'',
                                tool_inputSchema = JObj [(''type'', JStr ''object'')]\<rparr>]),
      callTool = (\<lambda>cl name args. Inr (JObj [(''content'', JArr [])]))\<rparr>"

text \<open>
  What every entry of a built registry satisfies: its callback forwards to the name it is
  registered under, its validator is \<^verbatim>\<open>z.record(z.any())\<close> or a \<^verbatim>\<open>z.object\<close>, and its
  client stands in the relation \<open>Q\<close> to its name.
\<close>

definition entry_ok :: "(string \<Rightarrow> client \<Rightarrow> bool) \<Rightarrow> string \<times> registered_tool \<Rightarrow> bool" where
  "entry_ok Q ke =
     (handler_tool (snd ke) = fst ke \<and>
      (inputSchema (snd ke) = ZRecord ZAny \<or> (\<exists>sh. inputSchema (snd ke) = ZObject sh)) \<and>
      Q (fst ke) (handler_client (snd ke)))"

text \<open>
  The two upstreams of the repository, \<^verbatim>\<open>mcp-child-a.js\<close> with its tool \<^verbatim>\<open>joke\<close> and
  \<^verbatim>\<open>mcp-child-b.js\<close> with \<^verbatim>\<open>name-age\<close>, answering a call with a payload that records
  who was called with what; and the registry \<^verbatim>\<open>main\<close> builds from them.
\<close>

definition two_children :: upstreams where
  "two_children =
     \<lparr>connect = (\<lambda>cl. None),
      listTools = (\<lambda>cl.
        if client_name cl = ''mcp-child-a-http'' then
          Inr [\<lparr>tool_name = ''joke'', tool_description = Some ''Get a Random Joke'',
                 tool_inputSchema = JObj [(''type'', JStr ''object''), (''properties'', JObj [])]\<rparr>]
        else
          Inr [\<lparr>tool_name = ''name-age'',
                 tool_description = Some ''Predict the age of a person given a name'',
                 tool_inputSchema =
                   JObj [(''type'', JStr ''object''),
                         (''properties'', JObj [(''name'', JObj [(''type'', JStr ''string'')])]),
                         (''required'', JArr [JStr ''name'']),
                         (''additionalProperties'', JBool False)]\<rparr>]),
      callTool = (\<lambda>cl name args.
        Inr (JObj [(''upstream'', JStr (client_name cl)), (''tool'', JStr name),
                   (''arguments'', args)]))\<rparr>"

definition gateway :: server where
  "gateway =
     [(''joke'', \<lparr>description = ''Get a Random Joke'', inputSchema = ZRecord ZAny,
                   handler_client = \<lparr>client_name = ''mcp-child-a-http'',
                                     client_url = ''http://127.0.0.1:3031/mcp''\<rparr>,
                   handler_tool = ''joke''\<rparr>),
      (''name-age'', \<lparr>description = ''Predict the age of a person given a name'',
                       inputSchema = ZObject [(''name'', ZString)],
                       handler_client = \<lparr>client_name = ''mcp-child-b-http'',
                                         client_url = ''http://127.0.0.1:3032/mcp''\<rparr>,
                       handler_tool = ''name-age''\<rparr>)]"

text \<open>Two upstreams that both advertise a tool named \<^verbatim>\<open>ping\<close>.\<close>

definition ping_tool :: tool where
  "ping_tool = \<lparr>tool_name = ''ping'', tool_description = None,
                 tool_inputSchema = JObj [(''type'', JStr ''object'')]\<rparr>"

definition both_ping :: upstreams where
  "both_ping =
     \<lparr>connect = (\<lambda>cl. None),
      listTools = (\<lambda>cl. Inr [ping_tool]),
      callTool = (\<lambda>cl name args. Inr (JStr (client_name cl)))\<rparr>"

text \<open>
  A schema object whose \<^verbatim>\<open>type\<close> is none of the seven kinds of the \<^verbatim>\<open>switch\<close> (and
  not a list): the \<^verbatim>\<open>default\<close> case.
\<close>

definition unknown_kind :: "jsval \<Rightarrow> bool" where
  "unknown_kind s =
     (case s of
        JObj kvs \<Rightarrow>
          \<not> isArray (lookup kvs ''type'') \<and>
          lookup kvs ''type'' \<notin> set (map JStr [''string'', ''number'', ''integer'', ''boolean'',
                                                ''array'', ''object'', ''null''])
      | _ \<Rightarrow> False)"

text \<open>Arrays of arrays, \<open>d\<close> levels below the outermost.\<close>

fun nested_arrays :: "nat \<Rightarrow> jsval" where
  "nested_arrays 0 = JObj [(''type'', JStr ''array'')]"
| "nested_arrays (Suc d) = JObj [(''type'', JStr ''array''), (''items'', nested_arrays d)]"

text \<open>An object schema whose \<^verbatim>\<open>required\<close> is \<^verbatim>\<open>true\<close> instead of a list.\<close>

definition bad_required_schema :: jsval where
  "bad_required_schema =
     JObj [(''type'', JStr ''object''), (''properties'', JObj [(''a'', JObj [])]),
           (''required'', JBool True)]"

text \<open>
  Every configured upstream can be connected to and lists its tools, and every advertised
  input schema translates.
\<close>

definition upstreams_answer :: "upstreams \<Rightarrow> child_config list \<Rightarrow> bool" where
  "upstreams_answer env cfgs =
     (\<forall>cfg\<in>set cfgs. \<exists>cl tools. connectChildHttp env cfg = Inr cl \<and> listTools env cl = Inr tools \<and>
        (\<forall>t\<in>set tools. \<exists>v. jsonSchemaToZodSchema (tool_inputSchema t) = Inr v))"

section \<open>The translator on a stack that never overflows\<close>

lemma lookup_Nil [simp]: "lookup [] k = JUndefined"
  by (simp add: lookup_def)

lemma lookup_Cons [simp]: "lookup ((k', v) # kvs) k = (if k = k' then v else lookup kvs k)"
  by (simp add: lookup_def)

lemma ebind_Inr [simp]: "ebind (Inr x) f = f x"
  by (simp add: ebind_def)

lemma ebind_Inl [simp]: "ebind (Inl e) f = Inl e"
  by (simp add: ebind_def)

lemma ebind_if: "ebind (if c then a else b) f = (if c then ebind a f else ebind b f)"
  by simp

lemma emap_total:
  "(\<And>x. x \<in> set xs \<Longrightarrow> \<exists>y. f x = Inr y) \<Longrightarrow> \<exists>ys. emap f xs = Inr ys"
proof (induction xs)
  case Nil
  then show ?case by simp
next
  case (Cons x xs)
  then obtain y where "f x = Inr y" by auto
  moreover from Cons obtain ys where "emap f xs = Inr ys" by auto
  ultimately show ?case by (simp add: ebind_def)
qed

lemma get_prop_object:
  "truthy ps \<Longrightarrow> \<exists>v. get_prop ps k = Inr v"
  by (cases ps) auto

lemma object_entries_truthy:
  "truthy v \<Longrightarrow> object_entries v = Inr (own_entries v)"
  by (cases v) auto

lemma js_includes_array:
  "isArray v \<Longrightarrow> js_includes v x = Inr (x \<in> set (elems v))"
  by (cases v) auto

text \<open>The three ways through \<^verbatim>\<open>jsonSchemaPropertyToZod\<close>, as equations.\<close>

lemma translate_guard:
  "\<not> truthy ps \<or> typeof ps \<noteq> ''object'' \<Longrightarrow> jsonSchemaPropertyToZod ps = Inr ZAny"
  by (subst jsonSchemaPropertyToZod.simps) simp

lemma translate_union:
  assumes "truthy ps" and "typeof ps = ''object''"
    and "get_prop ps ''type'' = Inr (JArr ts)"
  shows "jsonSchemaPropertyToZod ps =
     (if JStr ''null'' \<in> set ts \<and> length (filter (\<lambda>t. t \<noteq> JStr ''null'') ts) = 1
      then ebind (jsonSchemaPropertyToZod
                    (spread_with ps ''type'' (index (filter (\<lambda>t. t \<noteq> JStr ''null'') ts) 0)))
             (\<lambda>z. Inr (ZNullable z))
      else jsonSchemaPropertyToZod (spread_with ps ''type'' (index ts 0)))"
  using assms by (subst jsonSchemaPropertyToZod.simps) (simp add: Let_def)

lemma translate_scalar:
  assumes "truthy ps" and "typeof ps = ''object''"
    and "get_prop ps ''type'' = Inr ty" and "\<not> isArray ty"
    and "get_prop ps ''enum'' = Inr en" and "get_prop ps ''items'' = Inr items"
    and "get_prop ps ''properties'' = Inr props" and "get_prop ps ''nullable'' = Inr nu"
  shows "jsonSchemaPropertyToZod ps =
     ebind
       (if ty = JStr ''string'' then
          (if truthy en \<and> isArray en then Inr (ZEnum (elems en)) else Inr ZString)
        else if ty = JStr ''number'' \<or> ty = JStr ''integer'' then
          (if ty = JStr ''integer'' then Inr ZNumberInt else Inr ZNumber)
        else if ty = JStr ''boolean'' then Inr ZBoolean
        else if ty = JStr ''array'' then
          (if truthy items then
             ebind (jsonSchemaPropertyToZod items) (\<lambda>el. Inr (ZArray el))
           else Inr (ZArray ZAny))
        else if ty = JStr ''object'' then
          (if truthy props then
             ebind (emap (\<lambda>kv. ebind (jsonSchemaPropertyToZod (snd kv))
                                  (\<lambda>z. Inr (fst kv, z))) (own_entries props))
               (\<lambda>shape. Inr (ZObject shape))
           else Inr (ZRecord ZAny))
        else if ty = JStr ''null'' then Inr ZNull
        else Inr ZAny)
       (\<lambda>zodSchema.
          if ty \<noteq> JStr ''null'' \<and> nu = JBool True then Inr (ZNullable zodSchema)
          else Inr zodSchema)"
  using assms
  by (subst jsonSchemaPropertyToZod.simps) (simp add: ebind_if object_entries_truthy)

lemma translate_total: "\<exists>z. jsonSchemaPropertyToZod s = Inr z"
proof (induction s rule: jsonSchemaPropertyToZod.induct)
  case (1 ps)
  show ?case
  proof (cases "\<not> truthy ps \<or> typeof ps \<noteq> ''object''")
    case True
    then show ?thesis by (simp add: translate_guard)
  next
    case guard: False
    then have tr: "truthy ps" and ob: "typeof ps = ''object''" by simp_all
    obtain ty where ty: "get_prop ps ''type'' = Inr ty"
      using get_prop_object [OF tr] by auto
    obtain en where en: "get_prop ps ''enum'' = Inr en"
      using get_prop_object [OF tr] by auto
    obtain items where items: "get_prop ps ''items'' = Inr items"
      using get_prop_object [OF tr] by auto
    obtain props where props: "get_prop ps ''properties'' = Inr props"
      using get_prop_object [OF tr] by auto
    obtain nu where nu: "get_prop ps ''nullable'' = Inr nu"
      using get_prop_object [OF tr] by auto
    show ?thesis
    proof (cases "isArray ty")
      case arr: True
      then obtain ts where ts: "ty = JArr ts" by (cases ty) auto
      define nn where "nn = filter (\<lambda>t. t \<noteq> JStr ''null'') (elems ty)"
      have hn: "js_includes ty (JStr ''null'') = Inr (JStr ''null'' \<in> set ts)"
        using ts by simp
      show ?thesis
      proof (cases "JStr ''null'' \<in> set ts \<and> length nn = 1")
        case True
        from "1.IH"(1) [OF guard ty arr hn nn_def True]
        obtain z where "jsonSchemaPropertyToZod (spread_with ps ''type'' (index nn 0)) = Inr z"
          by auto
        with True ts show ?thesis
          using translate_union [OF tr ob ty [unfolded ts]] by (simp add: nn_def)
      next
        case False
        from "1.IH"(2) [OF guard ty arr hn nn_def False]
        obtain z where "jsonSchemaPropertyToZod (spread_with ps ''type'' (index (elems ty) 0)) = Inr z"
          by auto
        with False ts show ?thesis
          using translate_union [OF tr ob ty [unfolded ts]] by (auto simp add: nn_def)
      qed
    next
      case scalar: False
      note eq = translate_scalar [OF tr ob ty scalar en items props nu]
      consider "ty = JStr ''array''" "truthy items" | "ty = JStr ''object''" "truthy props"
        | "\<not> (ty = JStr ''array'' \<and> truthy items)" "\<not> (ty = JStr ''object'' \<and> truthy props)"
        by auto
      then show ?thesis
      proof cases
        case 1
        with "1.IH"(3) [OF guard ty scalar _ _ _ _ items]
        obtain z where "jsonSchemaPropertyToZod items = Inr z" by auto
        with 1 show ?thesis unfolding eq by simp
      next
        case 2
        have "\<exists>y. ebind (jsonSchemaPropertyToZod (snd kv)) (\<lambda>z. Inr (fst kv, z)) = Inr y"
          if "kv \<in> set (own_entries props)" for kv
        proof -
          from "1.IH"(4) [OF guard ty scalar _ _ _ _ _ props _
              object_entries_truthy that] 2
          obtain z where "jsonSchemaPropertyToZod (snd kv) = Inr z" by auto
          then show ?thesis by simp
        qed
        then obtain sh where "emap (\<lambda>kv. ebind (jsonSchemaPropertyToZod (snd kv))
                                      (\<lambda>z. Inr (fst kv, z))) (own_entries props) = Inr sh"
          using emap_total [of "own_entries props"] by meson
        with 2 show ?thesis unfolding eq by simp
      next
        case 3
        then show ?thesis unfolding eq by auto
      qed
    qed
  qed
qed

text \<open>
  The entry point \<^verbatim>\<open>jsonSchemaToZodSchema\<close> calls \<^verbatim>\<open>required.includes(key)\<close> on
  whatever truthy value \<^verbatim>\<open>required\<close> holds. On an array (or a string) that is a method;
  on any other truthy value it is not, and the call throws once there is a property to
  check.
\<close>

lemma top_total:
  assumes "required_is_list s"
  shows "\<exists>v. jsonSchemaToZodSchema s = Inr v"
proof (cases "truthy s")
  case False
  then show ?thesis by (simp add: jsonSchemaToZodSchema_def)
next
  case tr: True
  obtain ty where ty: "get_prop s ''type'' = Inr ty"
    using get_prop_object [OF tr] by auto
  obtain p where p: "get_prop s ''properties'' = Inr p"
    using get_prop_object [OF tr] by auto
  obtain r where r: "get_prop s ''required'' = Inr r"
    using get_prop_object [OF tr] by auto
  define properties where "properties = (if truthy p then p else JObj [])"
  define required where "required = (if truthy r then r else JArr [])"
  have "isArray required"
    using assms r by (auto simp add: required_is_list_def required_def)
  then have inc: "js_includes required x = Inr (x \<in> set (elems required))" for x
    by (rule js_includes_array)
  have "truthy properties" by (simp add: properties_def)
  then have oe: "object_entries properties = Inr (own_entries properties)"
    by (rule object_entries_truthy)
  have "\<exists>y. ebind (jsonSchemaPropertyToZod (snd kv)) (\<lambda>zodProperty.
          ebind (js_includes required (JStr (fst kv))) (\<lambda>listed.
          Inr (fst kv, if \<not> listed then ZOptional zodProperty else zodProperty))) = Inr y" for kv
    using translate_total [of "snd kv"] by (auto simp add: inc)
  then obtain sh where "emap (\<lambda>kv. ebind (jsonSchemaPropertyToZod (snd kv)) (\<lambda>zodProperty.
          ebind (js_includes required (JStr (fst kv))) (\<lambda>listed.
          Inr (fst kv, if \<not> listed then ZOptional zodProperty else zodProperty))))
        (own_entries properties) = Inr sh"
    using emap_total [of "own_entries properties"] by meson
  then show ?thesis
    using tr ty p r oe
    by (simp add: jsonSchemaToZodSchema_def Let_def properties_def [symmetric] required_def [symmetric])
qed

section \<open>What the translated validators accept\<close>

lemma get_prop_JObj: "get_prop (JObj kvs) k = Inr (lookup kvs k)"
  by simp

lemma spread_with_JObj: "spread_with (JObj kvs) k x = JObj (AList.update k x kvs)"
  by (simp add: spread_with_def)

lemma lookup_update: "lookup (AList.update k v kvs) k' = (if k' = k then v else lookup kvs k')"
  by (simp add: lookup_def update_conv')

lemma lookup_delete: "lookup (AList.delete k kvs) k' = (if k' = k then JUndefined else lookup kvs k')"
  by (simp add: lookup_def delete_conv')

lemma those_map_Some:
  "(\<exists>ys. those (map f xs) = Some ys) = (\<forall>x\<in>set xs. \<exists>y. f x = Some y)"
  by (induction xs) (auto split: option.splits)

lemma accepts_any [simp]: "accepts ZAny v"
  by (simp add: accepts_def)

lemma accepts_string: "accepts ZString v = (\<exists>s. v = JStr s)"
  by (cases v) (simp_all add: accepts_def)

lemma accepts_enum: "accepts (ZEnum es) v = ((\<exists>s. v = JStr s) \<and> v \<in> set es)"
  by (cases v) (simp_all add: accepts_def)

lemma accepts_number: "accepts ZNumber v = (\<exists>r. v = JNum r)"
  by (cases v) (simp_all add: accepts_def)

lemma accepts_int: "accepts ZNumberInt v = (\<exists>r. v = JNum r \<and> of_int \<lfloor>r\<rfloor> = r)"
  by (cases v) (simp_all add: accepts_def)

lemma accepts_boolean: "accepts ZBoolean v = (\<exists>b. v = JBool b)"
  by (cases v) (simp_all add: accepts_def)

lemma accepts_null: "accepts ZNull v = (v = JNull)"
  by (simp add: accepts_def)

lemma accepts_nullable: "accepts (ZNullable z) v = (v = JNull \<or> accepts z v)"
  by (simp add: accepts_def)

lemma accepts_optional: "accepts (ZOptional z) v = (v = JUndefined \<or> accepts z v)"
  by (simp add: accepts_def)

lemma accepts_array:
  "accepts (ZArray el) v = (\<exists>xs. v = JArr xs \<and> (\<forall>x\<in>set xs. accepts el x))"
  by (cases v) (simp_all add: accepts_def those_map_Some)

lemma accepts_object:
  "accepts (ZObject shape) v =
     (\<exists>kvs. v = JObj kvs \<and> (\<forall>kz\<in>set shape. accepts (snd kz) (lookup kvs (fst kz))))"
  by (cases v) (simp_all add: accepts_def those_map_Some)

lemma accepts_record_any: "accepts (ZRecord ZAny) v = (\<exists>kvs. v = JObj kvs)"
  by (cases v) (simp_all add: accepts_def those_map_Some)

lemma translate_string:
  assumes "lookup kvs ''type'' = JStr ''string''"
  shows "jsonSchemaPropertyToZod (JObj kvs) =
     Inr (let zodSchema = (if isArray (lookup kvs ''enum'') then ZEnum (elems (lookup kvs ''enum''))
                           else ZString)
          in if lookup kvs ''nullable'' = JBool True then ZNullable zodSchema else zodSchema)"
proof -
  have "isArray en \<Longrightarrow> truthy en" for en by (cases en) auto
  then show ?thesis
    using assms translate_scalar [of "JObj kvs", OF _ _ get_prop_JObj _ get_prop_JObj get_prop_JObj
        get_prop_JObj get_prop_JObj]
    by (auto simp add: Let_def)
qed

text \<open>
  Claim C7 fails as it is stated, at a string schema with an enum list and
  \<^verbatim>\<open>nullable: true\<close>: its validator accepts \<^verbatim>\<open>null\<close>, which is not a member of the
  list.
\<close>

theorem string_enum_counterexample:
  "jsonSchemaPropertyToZod nullable_enum_schema = Inr (ZNullable (ZEnum [JStr ''x'', JStr ''y'']))
   \<and> accepts (ZNullable (ZEnum [JStr ''x'', JStr ''y''])) JNull
   \<and> JNull \<notin> set [JStr ''x'', JStr ''y'']"
  by (simp add: nullable_enum_schema_def translate_string lookup_def accepts_nullable)

text \<open>
  Claim C7, as amended. For every schema of kind \<^verbatim>\<open>string\<close> that carries an enum list,
  the produced validator accepts a value iff it is a string that is a member of the
  list, or it is null and the schema has \<^verbatim>\<open>nullable = true\<close>; a string that is not
  listed is rejected. With no enum present, every string is accepted (and null iff
  \<^verbatim>\<open>nullable = true\<close>).
\<close>

theorem string_enum_membership:
  assumes "lookup kvs ''type'' = JStr ''string''"
  shows "\<exists>z. jsonSchemaPropertyToZod (JObj kvs) = Inr z \<and>
     (\<forall>es. lookup kvs ''enum'' = JArr es \<longrightarrow>
        (\<forall>v. accepts z v =
           ((\<exists>s. v = JStr s) \<and> v \<in> set es \<or> v = JNull \<and> lookup kvs ''nullable'' = JBool True))) \<and>
     (lookup kvs ''enum'' = JUndefined \<longrightarrow>
        (\<forall>v. accepts z v =
           ((\<exists>s. v = JStr s) \<or> v = JNull \<and> lookup kvs ''nullable'' = JBool True)))"
  using assms
  by (auto simp add: translate_string Let_def accepts_nullable accepts_enum accepts_string)

theorem string_enum_membership_witness:
  "\<exists>z. jsonSchemaPropertyToZod enum_schema = Inr z \<and>
     accepts z (JStr ''x'') \<and> \<not> accepts z (JStr ''z'') \<and> \<not> accepts z JNull"
  using string_enum_membership [of "[(''type'', JStr ''string''), (''enum'', JArr [JStr ''x'', JStr ''y''])]"]
  by (auto simp add: enum_schema_def lookup_def)

lemma translate_scalar_without_enum:
  assumes "\<not> isArray (lookup kvs ''type'')" and "lookup kvs ''type'' \<noteq> JStr ''string''"
  shows "jsonSchemaPropertyToZod (JObj kvs) = jsonSchemaPropertyToZod (JObj (AList.delete ''enum'' kvs))"
proof -
  have "\<not> isArray (lookup (AList.delete ''enum'' kvs) ''type'')"
    using assms by (simp add: lookup_delete)
  then show ?thesis
    using assms
      translate_scalar [of "JObj kvs", OF _ _ get_prop_JObj _ get_prop_JObj get_prop_JObj
        get_prop_JObj get_prop_JObj]
      translate_scalar [of "JObj (AList.delete ''enum'' kvs)", OF _ _ get_prop_JObj _ get_prop_JObj
        get_prop_JObj get_prop_JObj get_prop_JObj]
    by (simp add: lookup_delete)
qed

lemma translate_object_union:
  assumes "lookup kvs ''type'' = JArr ts"
  shows "jsonSchemaPropertyToZod (JObj kvs) =
     (if JStr ''null'' \<in> set ts \<and> length (filter (\<lambda>t. t \<noteq> JStr ''null'') ts) = 1
      then ebind (jsonSchemaPropertyToZod
                    (JObj (AList.update ''type'' (index (filter (\<lambda>t. t \<noteq> JStr ''null'') ts) 0) kvs)))
             (\<lambda>z. Inr (ZNullable z))
      else jsonSchemaPropertyToZod (JObj (AList.update ''type'' (index ts 0) kvs)))"
proof -
  have "get_prop (JObj kvs) ''type'' = Inr (JArr ts)"
    by (simp only: get_prop_JObj assms)
  then show ?thesis
    using translate_union [of "JObj kvs" ts] by (simp add: spread_with_JObj)
qed

lemma index_cases: "index xs i = JUndefined \<or> index xs i \<in> set xs"
  by (simp add: index_def)

lemma translate_without_enum:
  assumes "no_string_kind (lookup kvs ''type'')"
  shows "jsonSchemaPropertyToZod (JObj kvs) = jsonSchemaPropertyToZod (JObj (AList.delete ''enum'' kvs))"
proof (cases "isArray (lookup kvs ''type'')")
  case False
  with assms show ?thesis by (simp add: translate_scalar_without_enum no_string_kind_def)
next
  case True
  then obtain ts where ts: "lookup kvs ''type'' = JArr ts" by (cases "lookup kvs ''type''") auto
  have ts': "lookup (AList.delete ''enum'' kvs) ''type'' = JArr ts"
    using ts by (simp add: lookup_delete)
  have step: "jsonSchemaPropertyToZod (JObj (AList.update ''type'' t kvs)) =
      jsonSchemaPropertyToZod (JObj (AList.update ''type'' t (AList.delete ''enum'' kvs)))"
    if "t = JUndefined \<or> t \<in> set ts" for t
  proof -
    from that assms ts have "\<not> isArray t \<and> t \<noteq> JStr ''string''"
      by (auto simp add: no_string_kind_def)
    then have "jsonSchemaPropertyToZod (JObj (AList.update ''type'' t kvs)) =
        jsonSchemaPropertyToZod (JObj (AList.delete ''enum'' (AList.update ''type'' t kvs)))"
      by (simp add: translate_scalar_without_enum lookup_update)
    then show ?thesis by (simp add: delete_update)
  qed
  have "set (filter (\<lambda>t. t \<noteq> JStr ''null'') ts) \<subseteq> set ts" by auto
  then have a: "index (filter (\<lambda>t. t \<noteq> JStr ''null'') ts) 0 = JUndefined
      \<or> index (filter (\<lambda>t. t \<noteq> JStr ''null'') ts) 0 \<in> set ts"
    using index_cases [of "filter (\<lambda>t. t \<noteq> JStr ''null'') ts" 0] by auto
  show ?thesis
    unfolding translate_object_union [OF ts] translate_object_union [OF ts']
    using step [OF a] step [OF index_cases [of ts 0]] by simp
qed



text \<open>
  Claim C4. For a schema whose \<^verbatim>\<open>type\<close> is a list of kinds \<open>ts\<close>: if the list includes
  \<^verbatim>\<open>null\<close> and exactly one other kind \<open>t\<close>, the translator produces the validator of
  the same schema at kind \<open>t\<close>, marked nullable, which accepts null and what that
  validator accepts; otherwise it produces the validator of the same schema at the first
  listed kind, whatever the remaining kinds are.
\<close>

theorem union_kind_translation:
  assumes "lookup kvs ''type'' = JArr ts"
  shows "(JStr ''null'' \<in> set ts \<and> filter (\<lambda>k. k \<noteq> JStr ''null'') ts = [t] \<longrightarrow>
            (\<exists>z. jsonSchemaPropertyToZod (JObj (AList.update ''type'' t kvs)) = Inr z \<and>
                 jsonSchemaPropertyToZod (JObj kvs) = Inr (ZNullable z) \<and>
                 (\<forall>v. accepts (ZNullable z) v = (v = JNull \<or> accepts z v)))) \<and>
         (\<not> (JStr ''null'' \<in> set ts \<and> length (filter (\<lambda>k. k \<noteq> JStr ''null'') ts) = 1) \<and> ts \<noteq> [] \<longrightarrow>
            jsonSchemaPropertyToZod (JObj kvs) =
              jsonSchemaPropertyToZod (JObj (AList.update ''type'' (hd ts) kvs)))"
proof (intro conjI impI)
  assume a: "JStr ''null'' \<in> set ts \<and> filter (\<lambda>k. k \<noteq> JStr ''null'') ts = [t]"
  obtain z where z: "jsonSchemaPropertyToZod (JObj (AList.update ''type'' t kvs)) = Inr z"
    using translate_total by blast
  from a have "jsonSchemaPropertyToZod (JObj kvs) = Inr (ZNullable z)"
    unfolding translate_object_union [OF assms] by (simp add: index_def z)
  with z show "\<exists>z. jsonSchemaPropertyToZod (JObj (AList.update ''type'' t kvs)) = Inr z \<and>
                 jsonSchemaPropertyToZod (JObj kvs) = Inr (ZNullable z) \<and>
                 (\<forall>v. accepts (ZNullable z) v = (v = JNull \<or> accepts z v))"
    by (simp add: accepts_nullable)
next
  assume a: "\<not> (JStr ''null'' \<in> set ts \<and> length (filter (\<lambda>k. k \<noteq> JStr ''null'') ts) = 1) \<and> ts \<noteq> []"
  then have "index ts 0 = hd ts" by (cases ts) (simp_all add: index_def)
  with a show "jsonSchemaPropertyToZod (JObj kvs) =
              jsonSchemaPropertyToZod (JObj (AList.update ''type'' (hd ts) kvs))"
    unfolding translate_object_union [OF assms] by auto
qed

theorem union_kind_translation_witness:
  "jsonSchemaPropertyToZod nullable_string_union = Inr (ZNullable ZString) \<and>
   jsonSchemaPropertyToZod string_number_union = Inr ZString"
proof -
  have 1: "lookup [(''type'', JArr [JStr ''string'', JStr ''null''])] ''type''
             = JArr [JStr ''string'', JStr ''null'']"
    by (simp add: lookup_def)
  have 2: "lookup [(''type'', JArr [JStr ''string'', JStr ''number'', JStr ''null''])] ''type''
             = JArr [JStr ''string'', JStr ''number'', JStr ''null'']"
    by (simp add: lookup_def)
  show ?thesis
    using union_kind_translation [OF 1, of "JStr ''string''"] union_kind_translation [OF 2]
    by (simp add: nullable_string_union_def string_number_union_def translate_string lookup_def)
qed

lemma ebind_transfer:
  assumes "ebind m g = Inr z0" and "\<And>z. g z = Inr z" and "\<And>z. f z = Inr (h z)"
  shows "ebind m f = Inr (h z0)"
  using assms by (cases m) simp_all

lemma get_prop_delete:
  "k \<noteq> k' \<Longrightarrow> get_prop (JObj (AList.delete k' kvs)) k = Inr (lookup kvs k)"
  by (simp add: lookup_delete)

lemma translate_scalar_nullable:
  assumes "\<not> isArray (lookup kvs ''type'')" and "lookup kvs ''nullable'' = JBool True"
    and "jsonSchemaPropertyToZod (JObj (AList.delete ''nullable'' kvs)) = Inr z0"
  shows "jsonSchemaPropertyToZod (JObj kvs) =
     Inr (if lookup kvs ''type'' \<noteq> JStr ''null'' then ZNullable z0 else z0)"
proof -
  have nu: "get_prop (JObj kvs) ''nullable'' = Inr (JBool True)"
    by (simp add: assms)
  have nu': "get_prop (JObj (AList.delete ''nullable'' kvs)) ''nullable'' = Inr JUndefined"
    by (simp add: lookup_delete)
  note e1 = translate_scalar [of "JObj kvs", OF _ _ get_prop_JObj assms(1) get_prop_JObj
      get_prop_JObj get_prop_JObj nu, simplified truthy.simps typeof.simps, OF TrueI refl]
  have g: "get_prop (JObj (AList.delete ''nullable'' kvs)) ''type'' = Inr (lookup kvs ''type'')"
    "get_prop (JObj (AList.delete ''nullable'' kvs)) ''enum'' = Inr (lookup kvs ''enum'')"
    "get_prop (JObj (AList.delete ''nullable'' kvs)) ''items'' = Inr (lookup kvs ''items'')"
    "get_prop (JObj (AList.delete ''nullable'' kvs)) ''properties'' = Inr (lookup kvs ''properties'')"
    by (simp_all add: lookup_delete)
  note e2 = translate_scalar [of "JObj (AList.delete ''nullable'' kvs)", OF _ _ g(1) assms(1)
      g(2) g(3) g(4) nu',
      simplified truthy.simps typeof.simps, OF TrueI refl]
  show ?thesis
    unfolding e1
    by (rule ebind_transfer [where h = "\<lambda>z. if lookup kvs ''type'' \<noteq> JStr ''null'' then ZNullable z else z",
          OF assms(3) [unfolded e2]]) simp_all
qed

lemma nullable_adds_null:
  assumes "lookup kvs ''nullable'' = JBool True"
  shows "\<exists>z z0. jsonSchemaPropertyToZod (JObj kvs) = Inr z \<and>
           jsonSchemaPropertyToZod (JObj (AList.delete ''nullable'' kvs)) = Inr z0 \<and>
           (\<forall>v. accepts z v = (v = JNull \<or> accepts z0 v))"
  using assms
proof (induction "size (lookup kvs ''type'')" arbitrary: kvs rule: less_induct)
  case less
  obtain z0 where z0: "jsonSchemaPropertyToZod (JObj (AList.delete ''nullable'' kvs)) = Inr z0"
    using translate_total by blast
  show ?case
  proof (cases "isArray (lookup kvs ''type'')")
    case False
    note eq = translate_scalar_nullable [OF False less.prems z0]
    show ?thesis
    proof (cases "lookup kvs ''type'' = JStr ''null''")
      case True
      then have "lookup (AList.delete ''nullable'' kvs) ''type'' = JStr ''null''"
        by (simp add: lookup_delete)
      then have "z0 = ZNull"
        using z0 translate_scalar [of "JObj (AList.delete ''nullable'' kvs)", OF _ _ get_prop_JObj _
            get_prop_JObj get_prop_JObj get_prop_JObj get_prop_JObj]
        by (simp add: lookup_delete)
      with True eq z0 show ?thesis by (simp add: accepts_null)
    next
      case False
      with eq z0 show ?thesis by (simp add: accepts_nullable)
    qed
  next
    case True
    then obtain ts where ts: "lookup kvs ''type'' = JArr ts" by (cases "lookup kvs ''type''") auto
    have ts': "lookup (AList.delete ''nullable'' kvs) ''type'' = JArr ts"
      using ts by (simp add: lookup_delete)
    have step: "\<exists>z z0. jsonSchemaPropertyToZod (JObj (AList.update ''type'' t kvs)) = Inr z \<and>
           jsonSchemaPropertyToZod (JObj (AList.update ''type'' t (AList.delete ''nullable'' kvs))) = Inr z0 \<and>
           (\<forall>v. accepts z v = (v = JNull \<or> accepts z0 v))"
      if "size t < size (JArr ts)" for t
    proof -
      have "size (lookup (AList.update ''type'' t kvs) ''type'') < size (lookup kvs ''type'')"
        using that ts by (simp add: lookup_update)
      moreover have "lookup (AList.update ''type'' t kvs) ''nullable'' = JBool True"
        using less.prems by (simp add: lookup_update)
      ultimately have "\<exists>z z0. jsonSchemaPropertyToZod (JObj (AList.update ''type'' t kvs)) = Inr z \<and>
           jsonSchemaPropertyToZod (JObj (AList.delete ''nullable'' (AList.update ''type'' t kvs))) = Inr z0 \<and>
           (\<forall>v. accepts z v = (v = JNull \<or> accepts z0 v))"
        by (rule less.hyps)
      then show ?thesis by (simp add: delete_update)
    qed
    show ?thesis
    proof (cases "JStr ''null'' \<in> set ts \<and> length (filter (\<lambda>t. t \<noteq> JStr ''null'') ts) = 1")
      case True
      from step [OF size_index_filter [of "\<lambda>t. t \<noteq> JStr ''null''" ts 0]]
      obtain z1 z10 where
        "jsonSchemaPropertyToZod (JObj (AList.update ''type''
            (index (filter (\<lambda>t. t \<noteq> JStr ''null'') ts) 0) kvs)) = Inr z1"
        "jsonSchemaPropertyToZod (JObj (AList.update ''type''
            (index (filter (\<lambda>t. t \<noteq> JStr ''null'') ts) 0) (AList.delete ''nullable'' kvs))) = Inr z10"
        "\<forall>v. accepts z1 v = (v = JNull \<or> accepts z10 v)" by meson
      with True show ?thesis
        unfolding translate_object_union [OF ts] translate_object_union [OF ts']
        by (auto simp add: accepts_nullable)
    next
      case False
      from step [OF size_index [of ts 0]]
      obtain z1 z10 where
        "jsonSchemaPropertyToZod (JObj (AList.update ''type'' (index ts 0) kvs)) = Inr z1"
        "jsonSchemaPropertyToZod (JObj (AList.update ''type'' (index ts 0)
            (AList.delete ''nullable'' kvs))) = Inr z10"
        "\<forall>v. accepts z1 v = (v = JNull \<or> accepts z10 v)" by meson
      with False show ?thesis
        unfolding translate_object_union [OF ts] translate_object_union [OF ts']
        by auto
    qed
  qed
qed

text \<open>
  Claim C8. For every schema with \<^verbatim>\<open>nullable = true\<close>, the produced validator accepts
  null, and besides null exactly the values accepted by the validator of the same
  schema without the \<^verbatim>\<open>nullable\<close> property. For a schema of kind \<^verbatim>\<open>string\<close> without
  \<^verbatim>\<open>nullable = true\<close>, null is rejected.
\<close>

theorem nullable_wrapping:
  "(lookup kvs ''nullable'' = JBool True \<longrightarrow>
      (\<exists>z z0. jsonSchemaPropertyToZod (JObj kvs) = Inr z \<and>
         jsonSchemaPropertyToZod (JObj (AList.delete ''nullable'' kvs)) = Inr z0 \<and>
         accepts z JNull \<and> (\<forall>v. accepts z0 v \<longrightarrow> accepts z v) \<and>
         (\<forall>v. accepts z v = (v = JNull \<or> accepts z0 v)))) \<and>
   (lookup kvs ''type'' = JStr ''string'' \<and> lookup kvs ''nullable'' \<noteq> JBool True \<longrightarrow>
      (\<exists>z. jsonSchemaPropertyToZod (JObj kvs) = Inr z \<and> \<not> accepts z JNull))"
proof (intro conjI impI)
  assume "lookup kvs ''nullable'' = JBool True"
  from nullable_adds_null [OF this] obtain z z0 where
    "jsonSchemaPropertyToZod (JObj kvs) = Inr z"
    "jsonSchemaPropertyToZod (JObj (AList.delete ''nullable'' kvs)) = Inr z0"
    "\<forall>v. accepts z v = (v = JNull \<or> accepts z0 v)" by meson
  then show "\<exists>z z0. jsonSchemaPropertyToZod (JObj kvs) = Inr z \<and>
         jsonSchemaPropertyToZod (JObj (AList.delete ''nullable'' kvs)) = Inr z0 \<and>
         accepts z JNull \<and> (\<forall>v. accepts z0 v \<longrightarrow> accepts z v) \<and>
         (\<forall>v. accepts z v = (v = JNull \<or> accepts z0 v))"
    by simp
next
  assume "lookup kvs ''type'' = JStr ''string'' \<and> lookup kvs ''nullable'' \<noteq> JBool True"
  then show "\<exists>z. jsonSchemaPropertyToZod (JObj kvs) = Inr z \<and> \<not> accepts z JNull"
    by (simp add: translate_string Let_def accepts_enum accepts_string)
qed

theorem nullable_wrapping_witness:
  "(\<exists>z. jsonSchemaPropertyToZod nullable_string_schema = Inr z \<and>
        accepts z JNull \<and> accepts z (JStr ''sam'')) \<and>
   (\<exists>z. jsonSchemaPropertyToZod plain_string_schema = Inr z \<and> \<not> accepts z JNull)"
proof -
  let ?n = "[(''type'', JStr ''string''), (''nullable'', JBool True)]"
  let ?p = "[(''type'', JStr ''string'')]"
  have n: "lookup ?n ''nullable'' = JBool True" by (simp add: lookup_def)
  have p: "lookup ?p ''type'' = JStr ''string'' \<and> lookup ?p ''nullable'' \<noteq> JBool True"
    by (simp add: lookup_def)
  have d: "AList.delete ''nullable'' ?n = ?p" by (simp add: AList.delete_eq)
  have s: "jsonSchemaPropertyToZod (JObj ?p) = Inr ZString"
    by (simp add: translate_string lookup_def)
  from nullable_wrapping [of ?n] n
  have "\<exists>z z0. jsonSchemaPropertyToZod (JObj ?n) = Inr z \<and>
         jsonSchemaPropertyToZod (JObj (AList.delete ''nullable'' ?n)) = Inr z0 \<and>
         accepts z JNull \<and> (\<forall>v. accepts z0 v \<longrightarrow> accepts z v) \<and>
         (\<forall>v. accepts z v = (v = JNull \<or> accepts z0 v))" by meson
  then have "\<exists>z. jsonSchemaPropertyToZod (JObj ?n) = Inr z \<and> accepts z JNull \<and> accepts z (JStr ''sam'')"
    unfolding d s by (auto simp add: accepts_string)
  moreover from nullable_wrapping [of ?p] p
  have "\<exists>z. jsonSchemaPropertyToZod (JObj ?p) = Inr z \<and> \<not> accepts z JNull" by meson
  ultimately show ?thesis
    by (simp only: nullable_string_schema_def plain_string_schema_def)
qed

lemma top_level_required_example:
  "jsonSchemaToZodSchema required_example_schema =
     Inr (RawShape [(''a'', ZNumber), (''b'', ZOptional ZString)]) \<and>
   accepts (ZObject [(''a'', ZNumber), (''b'', ZOptional ZString)]) (JObj [(''a'', JNum 1)]) \<and>
   \<not> accepts (ZObject [(''a'', ZNumber), (''b'', ZOptional ZString)]) (JObj [(''b'', JNum 1)]) \<and>
   accepts (ZObject [(''a'', ZNumber), (''b'', ZOptional ZString)])
     (JObj [(''a'', JNum 1), (''b'', JStr ''x'')]) \<and>
   \<not> accepts (ZObject [(''a'', ZNumber), (''b'', ZOptional ZString)])
     (JObj [(''a'', JNum 1), (''b'', JNum 2)])"
  by (simp add: required_example_schema_def jsonSchemaToZodSchema_def jsonSchemaPropertyToZod.simps
      accepts_object accepts_optional accepts_number accepts_string)

lemma untyped_required_property_optional:
  "jsonSchemaToZodSchema untyped_required_schema = Inr (RawShape [(''a'', ZAny)]) \<and>
   accepts (getZodSchemaObject (RawShape [(''a'', ZAny)])) (JObj [])"
  by (simp add: untyped_required_schema_def jsonSchemaToZodSchema_def jsonSchemaPropertyToZod.simps
      accepts_object)

text \<open>
  Claim C3, at a failing input. The schema declares a required object \<^verbatim>\<open>opts\<close> whose own
  property \<^verbatim>\<open>verbose\<close> is not in its \<^verbatim>\<open>required\<close> list (which is empty). The
  translated validator nevertheless rejects \<^verbatim>\<open>{opts: {}}\<close>: inside
  \<^verbatim>\<open>jsonSchemaPropertyToZod\<close> the \<^verbatim>\<open>required\<close> list of an object node is never read,
  and every declared property of a nested object is demanded. Only the entry point
  \<^verbatim>\<open>jsonSchemaToZodSchema\<close> marks the properties outside \<^verbatim>\<open>required\<close> optional.
\<close>

theorem nested_required_ignored:
  "jsonSchemaToZodSchema nested_optional_schema =
     Inr (RawShape [(''opts'', ZObject [(''verbose'', ZBoolean)])]) \<and>
   \<not> accepts (getZodSchemaObject (RawShape [(''opts'', ZObject [(''verbose'', ZBoolean)])]))
       (JObj [(''opts'', JObj [])])"
  by (simp add: nested_optional_schema_def jsonSchemaToZodSchema_def jsonSchemaPropertyToZod.simps
      accepts_object accepts_boolean)

text \<open>
  Claim C10. When the arguments that reach the proxy handler are absent (\<^verbatim>\<open>undefined\<close>
  or \<^verbatim>\<open>null\<close>), it forwards the empty mapping \<^verbatim>\<open>{}\<close> to the owning client; what it
  forwards is never an absent value.
\<close>

theorem handler_defaults_arguments:
  "(args = JUndefined \<or> args = JNull \<longrightarrow>
      proxy_handler env cl name args = callTool env cl name (JObj [])) \<and>
   (\<exists>a. proxy_handler env cl name args = callTool env cl name a \<and> a \<noteq> JUndefined \<and> a \<noteq> JNull)"
  by (auto simp add: proxy_handler_def nullish_coalesce_def)

theorem handler_defaults_arguments_witness:
  "proxy_handler unreachable_b \<lparr>client_name = ''a'', client_url = ''u''\<rparr> ''joke'' JUndefined =
     callTool unreachable_b \<lparr>client_name = ''a'', client_url = ''u''\<rparr> ''joke'' (JObj [])"
  using handler_defaults_arguments [of JUndefined unreachable_b "\<lparr>client_name = ''a'', client_url = ''u''\<rparr>" "''joke''"]
  by simp

lemma build_failure:
  assumes "cfg \<in> set cfgs"
    and "connectChildHttp env cfg = Inl e \<or>
         (\<exists>cl. connectChildHttp env cfg = Inr cl \<and> listTools env cl = Inl e)"
  shows "\<exists>e'. build env server cfgs = Inl e'"
  using assms
proof (induction cfgs arbitrary: server)
  case Nil
  then show ?case by simp
next
  case (Cons c cfgs)
  show ?case
  proof (cases "ebind (connectChildHttp env c) (\<lambda>cl.
                 ebind (listTools env cl) (\<lambda>tools. register_tools cl server tools))")
    case (Inl e')
    then show ?thesis by (auto simp add: ebind_def split: sum.splits)
  next
    case (Inr server')
    then have eq: "build env server (c # cfgs) = build env server' cfgs"
      by (auto simp add: ebind_def split: sum.splits)
    from Inr Cons.prems have "cfg \<noteq> c"
      by (auto simp add: ebind_def split: sum.splits)
    with Cons.prems have "cfg \<in> set cfgs" by simp
    with Cons.IH Cons.prems(2) show ?thesis unfolding eq by simp
  qed
qed

text \<open>
  Claim C5. If any configured upstream cannot be connected to, or fails to list its
  tools, \<^verbatim>\<open>main\<close> fails with an error and yields no server: the gateway never listens,
  and no catalog, partial or otherwise, is served.
\<close>

theorem startup_failure_is_fatal:
  assumes "cfg \<in> set cfgs"
    and "connectChildHttp env cfg = Inl e \<or>
         (\<exists>cl. connectChildHttp env cfg = Inr cl \<and> listTools env cl = Inl e)"
  shows "\<exists>e'. main env cfgs = Inl e'"
  unfolding main_def using assms by (rule build_failure)

theorem startup_failure_is_fatal_witness:
  "main unreachable_b childrenConfig = Inl (ConnectionError ''ECONNREFUSED'')"
proof -
  have c: "connectChildHttp unreachable_b (childrenConfig ! 1) = Inl (ConnectionError ''ECONNREFUSED'')"
    by (simp add: connectChildHttp_def unreachable_b_def childrenConfig_def)
  have m: "childrenConfig ! 1 \<in> set childrenConfig"
    by (simp add: childrenConfig_def)
  from startup_failure_is_fatal [OF m disjI1, OF c]
  have "\<exists>e'. main unreachable_b childrenConfig = Inl e'" .
  then show ?thesis
    by (simp add: main_def childrenConfig_def connectChildHttp_def unreachable_b_def
        jsonSchemaToZodSchema_def registerTool_def)
qed

lemma schema_form:
  "jsonSchemaToZodSchema s = Inr v \<Longrightarrow>
     getZodSchemaObject v = ZRecord ZAny \<or> (\<exists>sh. getZodSchemaObject v = ZObject sh)"
  by (auto simp add: jsonSchemaToZodSchema_def ebind_def Let_def split: if_splits sum.splits)

lemma zparse_object_result:
  "z = ZRecord ZAny \<or> (\<exists>sh. z = ZObject sh) \<Longrightarrow> zparse z raw = Some c \<Longrightarrow> \<exists>kvs. c = JObj kvs"
  by (cases raw) auto

lemma registerTool_ok:
  assumes "registerTool server n d v cl n = Inr server'"
    and "jsonSchemaToZodSchema s = Inr v" and "Q n cl"
    and "\<forall>ke\<in>set server. entry_ok Q ke"
  shows "\<forall>ke\<in>set server'. entry_ok Q ke"
  using assms schema_form [OF assms(2)]
  by (auto simp add: registerTool_def entry_ok_def split: if_splits)

lemma register_tools_ok:
  "register_tools cl server tools = Inr server' \<Longrightarrow> \<forall>t\<in>set tools. Q (tool_name t) cl \<Longrightarrow>
     \<forall>ke\<in>set server. entry_ok Q ke \<Longrightarrow> \<forall>ke\<in>set server'. entry_ok Q ke"
proof (induction tools arbitrary: server)
  case Nil
  then show ?case by simp
next
  case (Cons t tools)
  then obtain v s1 where v: "jsonSchemaToZodSchema (tool_inputSchema t) = Inr v"
    and s1: "registerTool server (tool_name t)
              (case tool_description t of None \<Rightarrow> [] | Some d \<Rightarrow> d) v cl (tool_name t) = Inr s1"
    and r: "register_tools cl s1 tools = Inr server'"
    by (auto simp add: ebind_def split: sum.splits)
  from Cons.prems(2) have "Q (tool_name t) cl" by simp
  from registerTool_ok [OF s1 v this Cons.prems(3)] have "\<forall>ke\<in>set s1. entry_ok Q ke" .
  with Cons.IH [OF r] Cons.prems(2) show ?case by simp
qed

lemma build_ok:
  assumes "build env server cfgs = Inr server'"
    and "\<forall>ke\<in>set server. entry_ok Q ke"
    and "\<And>cfg cl tools t. cfg \<in> set cfgs \<Longrightarrow> connectChildHttp env cfg = Inr cl \<Longrightarrow>
           listTools env cl = Inr tools \<Longrightarrow> t \<in> set tools \<Longrightarrow> Q (tool_name t) cl"
  shows "\<forall>ke\<in>set server'. entry_ok Q ke"
  using assms
proof (induction cfgs arbitrary: server)
  case Nil
  then show ?case by simp
next
  case (Cons c cfgs)
  from Cons.prems(1) obtain cl tools s1 where c: "connectChildHttp env c = Inr cl"
    and l: "listTools env cl = Inr tools" and r: "register_tools cl server tools = Inr s1"
    and b: "build env s1 cfgs = Inr server'"
    by (auto simp add: ebind_def split: sum.splits)
  have "\<forall>t\<in>set tools. Q (tool_name t) cl"
    using Cons.prems(3) [OF _ c l] by simp
  from register_tools_ok [OF r this Cons.prems(2)] have "\<forall>ke\<in>set s1. entry_ok Q ke" .
  from this show ?case
  proof (rule Cons.IH [OF b])
    fix cfg cl' tools' t
    assume "cfg \<in> set cfgs" and "connectChildHttp env cfg = Inr cl'"
      and "listTools env cl' = Inr tools'" and "t \<in> set tools'"
    then show "Q (tool_name t) cl'" using Cons.prems(3) [of cfg cl' tools' t] by simp
  qed
qed

text \<open>
  Claim C6. For every tool \<open>n\<close> of a registry that \<^verbatim>\<open>main\<close> has built and every raw
  argument value, dispatch validates the raw arguments against the entry's validator;
  on success it calls the owning client's \<^verbatim>\<open>callTool\<close> for the name \<open>n\<close> with the
  parsed arguments, not the raw ones, and its result is that call's result, unchanged.
  The owning client is the client of a configured upstream that advertised \<open>n\<close>.
\<close>

theorem dispatch_forwards_coerced:
  assumes "main env cfgs = Inr server" and "map_of server n = Some entry"
  shows "dispatch env server n raw =
           (case zparse (inputSchema entry) raw of
              None \<Rightarrow> Inl ValidationError
            | Some coerced \<Rightarrow> callTool env (handler_client entry) n coerced) \<and>
         (\<exists>cfg\<in>set cfgs. \<exists>tools. connectChildHttp env cfg = Inr (handler_client entry) \<and>
            listTools env (handler_client entry) = Inr tools \<and> n \<in> tool_name ` set tools)"
proof -
  define Q where "Q = (\<lambda>n cl. \<exists>cfg\<in>set cfgs. \<exists>tools. connectChildHttp env cfg = Inr cl \<and>
            listTools env cl = Inr tools \<and> n \<in> tool_name ` set tools)"
  have "\<forall>ke\<in>set server. entry_ok Q ke"
  proof (rule build_ok [OF assms(1) [unfolded main_def]])
    show "\<forall>ke\<in>set []. entry_ok Q ke" by simp
  next
    fix cfg cl tools t
    assume "cfg \<in> set cfgs" "connectChildHttp env cfg = Inr cl" "listTools env cl = Inr tools"
      "t \<in> set tools"
    then show "Q (tool_name t) cl" unfolding Q_def by auto
  qed
  moreover from assms(2) have "(n, entry) \<in> set server" by (rule map_of_SomeD)
  ultimately have ok: "entry_ok Q (n, entry)" by blast
  then have t: "handler_tool entry = n"
    and f: "inputSchema entry = ZRecord ZAny \<or> (\<exists>sh. inputSchema entry = ZObject sh)"
    and q: "Q n (handler_client entry)"
    by (simp_all add: entry_ok_def)
  have "proxy_handler env (handler_client entry) (handler_tool entry) c =
          callTool env (handler_client entry) n c"
    if "zparse (inputSchema entry) raw = Some c" for c
    using zparse_object_result [OF f that] t
    by (auto simp add: proxy_handler_def nullish_coalesce_def)
  then have "dispatch env server n raw =
           (case zparse (inputSchema entry) raw of
              None \<Rightarrow> Inl ValidationError
            | Some coerced \<Rightarrow> callTool env (handler_client entry) n coerced)"
    using assms(2) by (simp add: dispatch_def split: option.splits)
  with q show ?thesis unfolding Q_def by simp
qed

lemma main_two_children: "main two_children childrenConfig = Inr gateway"
  by (simp add: main_def childrenConfig_def connectChildHttp_def two_children_def gateway_def
      jsonSchemaToZodSchema_def jsonSchemaPropertyToZod.simps registerTool_def)

theorem dispatch_forwards_coerced_witness:
  "main two_children childrenConfig = Inr gateway \<and>
   dispatch two_children gateway ''name-age''
       (JObj [(''name'', JStr ''sam''), (''extra'', JNum 1)]) =
     callTool two_children
       \<lparr>client_name = ''mcp-child-b-http'', client_url = ''http://127.0.0.1:3032/mcp''\<rparr>
       ''name-age'' (JObj [(''name'', JStr ''sam'')]) \<and>
   dispatch two_children gateway ''name-age'' (JObj []) = Inl ValidationError"
proof -
  let ?e = "\<lparr>description = ''Predict the age of a person given a name'',
                inputSchema = ZObject [(''name'', ZString)],
                handler_client = \<lparr>client_name = ''mcp-child-b-http'',
                                  client_url = ''http://127.0.0.1:3032/mcp''\<rparr>,
                handler_tool = ''name-age''\<rparr>"
  have m: "map_of gateway ''name-age'' = Some ?e"
    by (simp add: gateway_def)
  note d = dispatch_forwards_coerced [OF main_two_children m, THEN conjunct1]
  show ?thesis
    using d [of "JObj [(''name'', JStr ''sam''), (''extra'', JNum 1)]"] d [of "JObj []"]
      main_two_children
    by simp
qed

text \<open>
  Claim C2 fails as it is stated, at two upstreams that both advertise \<^verbatim>\<open>ping\<close>: the
  second \<^verbatim>\<open>server.registerTool("ping", ...)\<close> throws and \<^verbatim>\<open>main\<close> rejects. Nothing
  is overwritten and no catalog is served.
\<close>

theorem name_collision_counterexample:
  "main both_ping childrenConfig = Inl (ToolAlreadyRegistered ''ping'')"
  by (simp add: main_def childrenConfig_def connectChildHttp_def both_ping_def ping_tool_def
      jsonSchemaToZodSchema_def registerTool_def)

lemma registerTool_keys:
  "registerTool server n d s cl t = Inr server' \<Longrightarrow> fst ` set server' = insert n (fst ` set server)"
  by (auto simp add: registerTool_def split: if_splits)

lemma registerTool_known:
  "n \<in> fst ` set server \<Longrightarrow> registerTool server n d s cl t = Inl (ToolAlreadyRegistered n)"
  by (simp add: registerTool_def map_of_eq_None_iff)

lemma register_tools_keys:
  "register_tools cl server tools = Inr server' \<Longrightarrow>
     fst ` set server' = fst ` set server \<union> tool_name ` set tools"
proof (induction tools arbitrary: server)
  case Nil
  then show ?case by simp
next
  case (Cons t tools)
  then obtain v s1 where v: "jsonSchemaToZodSchema (tool_inputSchema t) = Inr v"
    and s1: "registerTool server (tool_name t)
              (case tool_description t of None \<Rightarrow> [] | Some d \<Rightarrow> d) v cl (tool_name t) = Inr s1"
    and r: "register_tools cl s1 tools = Inr server'"
    by (auto simp add: ebind_def split: sum.splits)
  from Cons.IH [OF r] registerTool_keys [OF s1] show ?case by auto
qed

lemma register_tools_known:
  "t \<in> set tools \<Longrightarrow> tool_name t \<in> fst ` set server \<Longrightarrow>
     \<exists>e. register_tools cl server tools = Inl e"
proof (induction tools arbitrary: server)
  case Nil
  then show ?case by simp
next
  case (Cons u tools)
  show ?case
  proof (cases "jsonSchemaToZodSchema (tool_inputSchema u)")
    case (Inl e)
    then show ?thesis by simp
  next
    case (Inr v)
    show ?thesis
    proof (cases "registerTool server (tool_name u)
              (case tool_description u of None \<Rightarrow> [] | Some d \<Rightarrow> d) v cl (tool_name u)")
      case (Inl e)
      with Inr show ?thesis by simp
    next
      case s1: (Inr s1)
      from Cons.prems(2) registerTool_known s1 have "tool_name u \<noteq> tool_name t" by fastforce
      with Cons.prems(1) have "t \<in> set tools" by auto
      moreover from registerTool_keys [OF s1] Cons.prems(2) have "tool_name t \<in> fst ` set s1" by simp
      ultimately have "\<exists>e. register_tools cl s1 tools = Inl e" by (rule Cons.IH)
      with Inr s1 show ?thesis by simp
    qed
  qed
qed

lemma build_append:
  "build env server (xs @ ys) = ebind (build env server xs) (\<lambda>s. build env s ys)"
  by (induction xs arbitrary: server) (auto simp add: ebind_def split: sum.splits)

lemma build_known:
  assumes "cfg \<in> set cfgs" and "connectChildHttp env cfg = Inr cl" and "listTools env cl = Inr tools"
    and "t \<in> set tools" and "tool_name t \<in> fst ` set server"
  shows "\<exists>e. build env server cfgs = Inl e"
  using assms(1,5)
proof (induction cfgs arbitrary: server)
  case Nil
  then show ?case by simp
next
  case (Cons c cfgs)
  show ?case
  proof (cases "connectChildHttp env c")
    case (Inl e)
    then show ?thesis by simp
  next
    case c1: (Inr cl1)
    show ?thesis
    proof (cases "listTools env cl1")
      case (Inl e)
      with c1 show ?thesis by simp
    next
      case l1: (Inr tools1)
      show ?thesis
      proof (cases "register_tools cl1 server tools1")
        case (Inl e)
        with c1 l1 show ?thesis by simp
      next
        case r1: (Inr s1)
        from register_tools_keys [OF r1] Cons.prems(2) have k: "tool_name t \<in> fst ` set s1" by simp
        have "c \<noteq> cfg"
        proof
          assume "c = cfg"
          with c1 l1 assms(2,3) have "cl1 = cl" "tools1 = tools" by simp_all
          with r1 register_tools_known [OF assms(4) Cons.prems(2), of cl] show False by simp
        qed
        with Cons.prems(1) have "cfg \<in> set cfgs" by auto
        from Cons.IH [OF this k] c1 l1 r1 show ?thesis by simp
      qed
    qed
  qed
qed

lemma name_collision_fails:
  assumes "connectChildHttp env a = Inr ca" and "listTools env ca = Inr ta"
    and "connectChildHttp env b = Inr cb" and "listTools env cb = Inr tb"
    and "t \<in> set ta" and "u \<in> set tb" and "tool_name t = tool_name u"
  shows "\<exists>e. main env (xs @ a # ys @ b # zs) = Inl e"
proof (cases "build env [] xs")
  case (Inl e)
  then show ?thesis by (simp add: main_def build_append)
next
  case sx: (Inr sx)
  show ?thesis
  proof (cases "register_tools ca sx ta")
    case (Inl e)
    with sx assms(1,2) show ?thesis by (simp add: main_def build_append)
  next
    case s1: (Inr s1)
    from assms(5) have "tool_name t \<in> tool_name ` set ta" by (rule imageI)
    with register_tools_keys [OF s1] assms(7) have "tool_name u \<in> fst ` set s1" by simp
    with build_known [of b "ys @ b # zs" env cb tb u s1] assms(3,4,6)
    obtain e where "build env s1 (ys @ b # zs) = Inl e" by auto
    with sx s1 assms(1,2) show ?thesis by (simp add: main_def build_append)
  qed
qed

text \<open>When every upstream answers, the only error left is the one of \<^verbatim>\<open>registerTool\<close>.\<close>

lemma registerTool_error:
  "registerTool server n d v cl t = Inl e \<Longrightarrow> e = ToolAlreadyRegistered n"
  by (auto simp add: registerTool_def split: if_splits)

lemma register_tools_error:
  "register_tools cl server tools = Inl e \<Longrightarrow>
     \<forall>t\<in>set tools. \<exists>v. jsonSchemaToZodSchema (tool_inputSchema t) = Inr v \<Longrightarrow>
     \<exists>t\<in>set tools. e = ToolAlreadyRegistered (tool_name t)"
proof (induction tools arbitrary: server)
  case Nil
  then show ?case by simp
next
  case (Cons u tools)
  from Cons.prems(2) obtain v where v: "jsonSchemaToZodSchema (tool_inputSchema u) = Inr v"
    by auto
  show ?case
  proof (cases "registerTool server (tool_name u)
            (case tool_description u of None \<Rightarrow> [] | Some d \<Rightarrow> d) v cl (tool_name u)")
    case (Inl e')
    with v Cons.prems(1) have "e = e'" by simp
    with registerTool_error [OF Inl] show ?thesis by simp
  next
    case (Inr s1)
    with v Cons.prems(1) have "register_tools cl s1 tools = Inl e" by simp
    from Cons.IH [OF this] Cons.prems(2) show ?thesis by simp
  qed
qed

lemma build_error:
  "build env server cfgs = Inl e \<Longrightarrow> upstreams_answer env cfgs \<Longrightarrow>
     \<exists>cfg\<in>set cfgs. \<exists>cl tools. connectChildHttp env cfg = Inr cl \<and> listTools env cl = Inr tools \<and>
        (\<exists>t\<in>set tools. e = ToolAlreadyRegistered (tool_name t))"
proof (induction cfgs arbitrary: server)
  case Nil
  then show ?case by simp
next
  case (Cons c cfgs)
  from Cons.prems(2) obtain cl tools where c: "connectChildHttp env c = Inr cl"
    and l: "listTools env cl = Inr tools"
    and tr: "\<forall>t\<in>set tools. \<exists>v. jsonSchemaToZodSchema (tool_inputSchema t) = Inr v"
    unfolding upstreams_answer_def by auto
  from Cons.prems(2) have rest: "upstreams_answer env cfgs"
    unfolding upstreams_answer_def by simp
  show ?case
  proof (cases "register_tools cl server tools")
    case (Inl e')
    with c l Cons.prems(1) have "e = e'" by simp
    with register_tools_error [OF Inl tr] c l show ?thesis by auto
  next
    case (Inr s1)
    with c l Cons.prems(1) have "build env s1 cfgs = Inl e" by simp
    from Cons.IH [OF this rest] show ?thesis by auto
  qed
qed

text \<open>
  Claim C2, as amended. When two configured upstreams each advertise a tool of the same
  name, and both can be connected to and list their tools, the registry build does not
  complete: \<^verbatim>\<open>main\<close> fails and the later upstream does not overwrite the earlier
  entry. When moreover every configured upstream answers and every advertised schema
  translates, the failure is the already-registered error of \<^verbatim>\<open>registerTool\<close>, for
  a name that a configured upstream advertises.
\<close>

theorem name_collision_rejected:
  assumes "connectChildHttp env a = Inr ca" and "listTools env ca = Inr ta"
    and "connectChildHttp env b = Inr cb" and "listTools env cb = Inr tb"
    and "t \<in> set ta" and "u \<in> set tb" and "tool_name t = tool_name u"
  shows "(\<exists>e. main env (xs @ a # ys @ b # zs) = Inl e) \<and>
         (upstreams_answer env (xs @ a # ys @ b # zs) \<longrightarrow>
            (\<exists>m. main env (xs @ a # ys @ b # zs) = Inl (ToolAlreadyRegistered m) \<and>
               (\<exists>cfg\<in>set (xs @ a # ys @ b # zs). \<exists>cl tools.
                  connectChildHttp env cfg = Inr cl \<and> listTools env cl = Inr tools \<and>
                  m \<in> tool_name ` set tools)))"
proof -
  from name_collision_fails [OF assms]
  obtain e where e: "main env (xs @ a # ys @ b # zs) = Inl e" by meson
  have "\<exists>m. main env (xs @ a # ys @ b # zs) = Inl (ToolAlreadyRegistered m) \<and>
               (\<exists>cfg\<in>set (xs @ a # ys @ b # zs). \<exists>cl tools.
                  connectChildHttp env cfg = Inr cl \<and> listTools env cl = Inr tools \<and>
                  m \<in> tool_name ` set tools)"
    if "upstreams_answer env (xs @ a # ys @ b # zs)"
  proof -
    from build_error [OF e [unfolded main_def] that]
    obtain cfg cl tools t where "cfg \<in> set (xs @ a # ys @ b # zs)"
      "connectChildHttp env cfg = Inr cl" "listTools env cl = Inr tools" "t \<in> set tools"
      "e = ToolAlreadyRegistered (tool_name t)" by meson
    with e show ?thesis by (intro exI [of _ "tool_name t"] conjI bexI [of _ cfg]) auto
  qed
  with e show ?thesis by meson
qed

theorem name_collision_rejected_witness:
  "upstreams_answer both_ping childrenConfig \<and>
   (\<exists>m. main both_ping childrenConfig = Inl (ToolAlreadyRegistered m))"
proof -
  let ?a = "\<lparr>cfg_id = ''mcp-child-a-http'', cfg_url = ''http://127.0.0.1:3031/mcp''\<rparr>"
  let ?b = "\<lparr>cfg_id = ''mcp-child-b-http'', cfg_url = ''http://127.0.0.1:3032/mcp''\<rparr>"
  have c: "childrenConfig = [] @ ?a # [] @ ?b # []"
    by (simp add: childrenConfig_def)
  have u: "upstreams_answer both_ping childrenConfig"
    by (simp add: upstreams_answer_def childrenConfig_def connectChildHttp_def both_ping_def
        ping_tool_def jsonSchemaToZodSchema_def)
  have "upstreams_answer both_ping childrenConfig \<longrightarrow>
      (\<exists>m. main both_ping childrenConfig = Inl (ToolAlreadyRegistered m) \<and>
         (\<exists>cfg\<in>set childrenConfig. \<exists>cl tools.
            connectChildHttp both_ping cfg = Inr cl \<and> listTools both_ping cl = Inr tools \<and>
            m \<in> tool_name ` set tools))"
    unfolding c
    by (rule name_collision_rejected [where t = ping_tool and u = ping_tool
          and ta = "[ping_tool]" and tb = "[ping_tool]"
          and ca = "\<lparr>client_name = cfg_id ?a, client_url = cfg_url ?a\<rparr>"
          and cb = "\<lparr>client_name = cfg_id ?b, client_url = cfg_url ?b\<rparr>", THEN conjunct2])
      (simp_all add: connectChildHttp_def both_ping_def)
  with u show ?thesis by meson
qed

section \<open>Translation on a bounded call stack\<close>

text \<open>
  Every recursive call is on a smaller value, so a stack with more activations than the
  size of the schema never overflows, and the bounded function agrees with the unbounded
  one.
\<close>

lemma within_eq:
  "size ps < frames \<Longrightarrow> jsonSchemaPropertyToZod_within frames ps = jsonSchemaPropertyToZod ps"
proof (induction frames arbitrary: ps)
  case 0
  then show ?case by simp
next
  case (Suc m)
  then have le: "size ps \<le> m" by simp
  show ?case
  proof (cases "\<not> truthy ps \<or> typeof ps \<noteq> ''object''")
    case True
    then show ?thesis by (simp add: translate_guard)
  next
    case guard: False
    then have tr: "truthy ps" and ob: "typeof ps = ''object''" by simp_all
    obtain ty where ty: "get_prop ps ''type'' = Inr ty"
      using get_prop_object [OF tr] by auto
    obtain en where en: "get_prop ps ''enum'' = Inr en"
      using get_prop_object [OF tr] by auto
    obtain items where items: "get_prop ps ''items'' = Inr items"
      using get_prop_object [OF tr] by auto
    obtain props where props: "get_prop ps ''properties'' = Inr props"
      using get_prop_object [OF tr] by auto
    obtain nu where nu: "get_prop ps ''nullable'' = Inr nu"
      using get_prop_object [OF tr] by auto
    show ?thesis
    proof (cases "isArray ty")
      case True
      then obtain ts where ts: "ty = JArr ts" by (cases ty) auto
      have step: "jsonSchemaPropertyToZod_within m (spread_with ps ''type'' t) =
          jsonSchemaPropertyToZod (spread_with ps ''type'' t)" if "size t < size (JArr ts)" for t
      proof -
        from size_spread_type [OF ty [unfolded ts] that] le
        have "size (spread_with ps ''type'' t) < m" by simp
        then show ?thesis by (rule Suc.IH)
      qed
      note s1 = step [OF size_index_filter [of "\<lambda>t. t \<noteq> JStr ''null''" ts 0]]
      note s2 = step [OF size_index [of ts 0]]
      show ?thesis
        using tr ob ty ts s1 s2 translate_union [OF tr ob ty [unfolded ts]]
        by (simp add: Let_def)
    next
      case scalar: False
      note eq = translate_scalar [OF tr ob ty scalar en items props nu]
      consider "ty = JStr ''array''" "truthy items" | "ty = JStr ''object''" "truthy props"
        | "\<not> (ty = JStr ''array'' \<and> truthy items)" "\<not> (ty = JStr ''object'' \<and> truthy props)"
        by auto
      then show ?thesis
      proof cases
        case 1
        from size_get_prop [OF items 1(2)] le have "size items < m" by simp
        then have "jsonSchemaPropertyToZod_within m items = jsonSchemaPropertyToZod items"
          by (rule Suc.IH)
        with 1 tr ob ty scalar items nu show ?thesis
          unfolding eq by (cases "nu = JBool True") simp_all
      next
        case 2
        have "jsonSchemaPropertyToZod_within m (snd kv) = jsonSchemaPropertyToZod (snd kv)"
          if "kv \<in> set (own_entries props)" for kv
        proof -
          from size_own_entries [OF that] size_get_prop [OF props 2(2)] le
          have "size (snd kv) < m" by simp
          then show ?thesis by (rule Suc.IH)
        qed
        then have "emap (\<lambda>kv. ebind (jsonSchemaPropertyToZod_within m (snd kv))
                                 (\<lambda>z. Inr (fst kv, z))) (own_entries props) =
                   emap (\<lambda>kv. ebind (jsonSchemaPropertyToZod (snd kv))
                                 (\<lambda>z. Inr (fst kv, z))) (own_entries props)"
          by (intro emap_cong refl) simp
        with 2 tr ob ty scalar props nu show ?thesis
          unfolding eq by (cases "nu = JBool True") (simp_all add: object_entries_truthy)
      next
        case 3
        with tr ob ty scalar en items props nu show ?thesis
          unfolding eq by (cases "nu = JBool True") auto
      qed
    qed
  qed
qed

lemma top_within_eq:
  assumes "size s < frames"
  shows "jsonSchemaToZodSchema_within frames s = jsonSchemaToZodSchema s"
proof (cases frames)
  case 0
  with assms show ?thesis by simp
next
  case (Suc m)
  with assms have le: "size s \<le> m" by simp
  show ?thesis
  proof (cases "truthy s")
    case False
    then show ?thesis by (simp add: Suc jsonSchemaToZodSchema_def)
  next
    case tr: True
    obtain ty where ty: "get_prop s ''type'' = Inr ty"
      using get_prop_object [OF tr] by auto
    obtain r where r: "get_prop s ''required'' = Inr r"
      using get_prop_object [OF tr] by auto
    obtain p where p: "get_prop s ''properties'' = Inr p"
      using get_prop_object [OF tr] by auto
    define properties where "properties = (if truthy p then p else JObj [])"
    have "jsonSchemaPropertyToZod_within m (snd kv) = jsonSchemaPropertyToZod (snd kv)"
      if "kv \<in> set (own_entries properties)" for kv
    proof -
      from that have "truthy p" and "kv \<in> set (own_entries p)"
        by (auto simp add: properties_def split: if_splits)
      with size_own_entries [of kv p] size_get_prop [OF p] le
      have "size (snd kv) < m" by simp
      then show ?thesis by (rule within_eq)
    qed
    then have "emap (\<lambda>kv.
                   ebind (jsonSchemaPropertyToZod_within m (snd kv)) (\<lambda>zodProperty.
                   ebind (js_includes required (JStr (fst kv))) (\<lambda>listed.
                   Inr (fst kv, if \<not> listed then ZOptional zodProperty else zodProperty))))
                 (own_entries properties) =
               emap (\<lambda>kv.
                   ebind (jsonSchemaPropertyToZod (snd kv)) (\<lambda>zodProperty.
                   ebind (js_includes required (JStr (fst kv))) (\<lambda>listed.
                   Inr (fst kv, if \<not> listed then ZOptional zodProperty else zodProperty))))
                 (own_entries properties)" for required
      by (intro emap_cong refl) simp
    moreover have "object_entries properties = Inr (own_entries properties)"
      by (rule object_entries_truthy) (simp add: properties_def)
    ultimately show ?thesis
      using tr ty p r
      by (simp add: Suc jsonSchemaToZodSchema_def Let_def properties_def [symmetric])
  qed
qed

lemma unconstrained_fallback:
  assumes "\<not> truthy s \<or> typeof s \<noteq> ''object'' \<or> unknown_kind s"
  shows "jsonSchemaPropertyToZod s = Inr ZAny \<or> jsonSchemaPropertyToZod s = Inr (ZNullable ZAny)"
proof (cases "\<not> truthy s \<or> typeof s \<noteq> ''object''")
  case True
  then show ?thesis by (simp add: translate_guard)
next
  case False
  with assms obtain kvs where s: "s = JObj kvs" and a: "\<not> isArray (lookup kvs ''type'')"
    and k: "lookup kvs ''type'' \<notin> set (map JStr [''string'', ''number'', ''integer'', ''boolean'',
                                                ''array'', ''object'', ''null''])"
    by (auto simp add: unknown_kind_def split: jsval.splits)
  from k show ?thesis
    unfolding s
    using translate_scalar [of "JObj kvs", OF _ _ get_prop_JObj a get_prop_JObj get_prop_JObj
        get_prop_JObj get_prop_JObj]
    by simp
qed

lemma fallback_within:
  assumes "\<not> truthy s \<or> typeof s \<noteq> ''object'' \<or> unknown_kind s"
  shows "jsonSchemaPropertyToZod_within (Suc m) s = Inr ZAny \<or>
         jsonSchemaPropertyToZod_within (Suc m) s = Inr (ZNullable ZAny)"
proof (cases "\<not> truthy s \<or> typeof s \<noteq> ''object''")
  case True
  then show ?thesis by simp
next
  case False
  with assms obtain kvs where s: "s = JObj kvs" and a: "\<not> isArray (lookup kvs ''type'')"
    and k: "lookup kvs ''type'' \<notin> set (map JStr [''string'', ''number'', ''integer'', ''boolean'',
                                                ''array'', ''object'', ''null''])"
    by (auto simp add: unknown_kind_def split: jsval.splits)
  from a k show ?thesis
    unfolding s by (cases "lookup kvs ''nullable'' = JBool True") simp_all
qed

lemma truthy_nested_arrays [simp]: "truthy (nested_arrays d)"
  by (cases d) simp_all

text \<open>Beyond the stack the translator throws: arrays nested as deep as the stack holds.\<close>

lemma nested_arrays_overflow:
  "jsonSchemaPropertyToZod_within d (nested_arrays d) = Inl RangeError"
  by (induction d) simp_all

text \<open>A malformed schema need not degrade to accept-anything: an empty enum list accepts nothing.\<close>

lemma empty_enum_accepts_nothing:
  "jsonSchemaPropertyToZod (JObj [(''type'', JStr ''string''), (''enum'', JArr [])]) = Inr (ZEnum []) \<and>
   (\<forall>v. \<not> accepts (ZEnum []) v)"
  by (simp add: translate_string accepts_enum)




end
